theory Spec2Isabelle
  imports Complex_Main "HOL-Library.Sublist"
begin

section \<open>Python values and exceptions\<close>

text \<open>
  The pipe works on the values of Python's JSON domain: the request body handed over by
  the host, the blocks it builds for the payload and the events decoded from the remote
  feed are all dicts, lists, strings, numbers, booleans and \<open>None\<close>.  A dict is an
  association list with one entry per key, read through \<open>map_of\<close>.  A \<open>str\<close> is the list of
  its characters, one \<open>char\<close> per code point (so the model covers strings over the code
  points below 256, which includes every keyword, base64 payload and URL of the protocol);
  a \<open>bytes\<close> line of the feed is a list of bytes.  A Python float is a \<open>rat\<close>: the only
  floats the code computes are \<open>len(s) * 3 / 4\<close>, their sums and their quotients by
  \<open>1024 * 1024\<close>, which are exact in binary floating point for every string shorter than
  \<open>2^53 / 3\<close> characters.
\<close>

datatype json =
    JNull
  | JBool bool
  | JInt int
  | JFloat rat
  | JStr string
  | JArr "json list"
  | JObj "(string \<times> json) list"

datatype exn =
    KeyError string
  | ValueError string
  | IndexError
  | TypeError json
  | AttributeError json string
  | JSONDecodeError string
  | UnicodeDecodeError string
  | Timeout string
  | RequestException string

text \<open>\<open>requests.exceptions.Timeout\<close> is a subclass of \<open>RequestException\<close>.\<close>

fun is_request_exception :: "exn \<Rightarrow> bool" where
  "is_request_exception (Timeout m) = True"
| "is_request_exception (RequestException m) = True"
| "is_request_exception e = False"

text \<open>Truthiness, as \<open>if x:\<close> and \<open>not x\<close> test it.\<close>

fun truthy :: "json \<Rightarrow> bool" where
  "truthy JNull = False"
| "truthy (JBool b) = b"
| "truthy (JInt i) = (i \<noteq> 0)"
| "truthy (JFloat r) = (r \<noteq> 0)"
| "truthy (JStr s) = (s \<noteq> [])"
| "truthy (JArr xs) = (xs \<noteq> [])"
| "truthy (JObj kvs) = (kvs \<noteq> [])"

text \<open>\<open>v[k]\<close> for a string key \<open>k\<close>: only a dict can be subscripted by a string.\<close>

fun py_getitem :: "json \<Rightarrow> string \<Rightarrow> exn + json" where
  "py_getitem (JObj kvs) k = (case map_of kvs k of None \<Rightarrow> Inl (KeyError k) | Some v \<Rightarrow> Inr v)"
| "py_getitem v k = Inl (TypeError v)"

text \<open>
  \<open>k in v\<close> for a string \<open>k\<close>: key membership in a dict, element membership in a list,
  substring test in a string, \<open>TypeError\<close> otherwise.
\<close>

fun py_contains :: "string \<Rightarrow> json \<Rightarrow> exn + bool" where
  "py_contains k (JObj kvs) = Inr (map_of kvs k \<noteq> None)"
| "py_contains k (JArr xs) = Inr (JStr k \<in> set xs)"
| "py_contains k (JStr s) = Inr (sublist k s)"
| "py_contains k v = Inl (TypeError v)"

text \<open>\<open>v.get(k, d)\<close>: a method of dicts only.\<close>

fun py_get :: "json \<Rightarrow> string \<Rightarrow> json \<Rightarrow> exn + json" where
  "py_get (JObj kvs) k d = (case map_of kvs k of None \<Rightarrow> Inr d | Some v \<Rightarrow> Inr v)"
| "py_get v k d = Inl (AttributeError v ''get'')"

text \<open>\<open>len(v)\<close>.\<close>

fun py_len :: "json \<Rightarrow> exn + nat" where
  "py_len (JStr s) = Inr (length s)"
| "py_len (JArr xs) = Inr (length xs)"
| "py_len (JObj kvs) = Inr (length kvs)"
| "py_len v = Inl (TypeError v)"

text \<open>\<open>for x in v\<close>: the elements of a list, the characters of a string, the keys of a dict.\<close>

fun py_iter :: "json \<Rightarrow> exn + json list" where
  "py_iter (JArr xs) = Inr xs"
| "py_iter (JStr s) = Inr (map (\<lambda>c. JStr [c]) s)"
| "py_iter (JObj kvs) = Inr (map (\<lambda>kv. JStr (fst kv)) kvs)"
| "py_iter v = Inl (TypeError v)"

text \<open>\<open>xs[i]\<close> on a list, for a non-negative index.\<close>

definition py_index :: "'a list \<Rightarrow> nat \<Rightarrow> exn + 'a" where
  "py_index xs i = (if i < length xs then Inr (xs ! i) else Inl IndexError)"

text \<open>\<open>s.split(c)\<close> and \<open>s.split(c, 1)\<close> for a one-character separator.\<close>

fun split_on :: "char \<Rightarrow> string \<Rightarrow> string list" where
  "split_on c [] = [[]]"
| "split_on c (x # xs) =
     (if x = c then [] # split_on c xs
      else (x # hd (split_on c xs)) # tl (split_on c xs))"

definition split_once :: "char \<Rightarrow> string \<Rightarrow> string list" where
  "split_once c s =
     (if c \<in> set s then [takeWhile (\<lambda>x. x \<noteq> c) s, tl (dropWhile (\<lambda>x. x \<noteq> c) s)] else [s])"

text \<open>\<open>str(n)\<close> for an int.\<close>

fun show_nat :: "nat \<Rightarrow> string" where
  "show_nat n =
     (if n < 10 then [char_of (48 + n)] else show_nat (n div 10) @ [char_of (48 + n mod 10)])"

declare show_nat.simps [simp del]

definition show_int :: "int \<Rightarrow> string" where
  "show_int i = (if i < 0 then CHR ''-'' # show_nat (nat (- i)) else show_nat (nat i))"

section \<open>The world outside the pipe\<close>

text \<open>
  What the remote endpoint answers to a POST, as the accessors of \<open>requests.Response\<close>
  that the code reads return it: the status, the body text, the lines \<open>iter_lines()\<close>
  delivers (a read may raise instead of delivering a line) and the result of \<open>json()\<close>.
\<close>

record response =
  status_code :: int
  resp_text :: string
  iter_lines :: "(exn + string) list"
  json_body :: "exn + json"

record payload =
  model :: json
  messages :: "json list"
  max_tokens :: json
  temperature :: json
  stream :: json
  stop_sequences :: "json option"
  system :: "string option"

text \<open>
  The library functions the code calls are parameters of the model: \<open>json.loads\<close>,
  \<open>bytes.decode("utf-8")\<close>, \<open>int\<close> on a string, the \<open>:.2f\<close> float format, \<open>str\<close> of a value
  and of an exception raised by the interpreter, \<open>requests.head\<close> (answering with the
  \<open>content-length\<close> header, if any), \<open>requests.post\<close> (given the url, the headers, the
  payload and the \<open>stream\<close> flag) and open-webui's \<open>pop_system_message\<close>.
\<close>

record lib =
  json_loads :: "string \<Rightarrow> exn + json"
  utf8_decode :: "string \<Rightarrow> exn + string"
  py_int :: "string \<Rightarrow> exn + int"
  format_2f :: "rat \<Rightarrow> string"
  py_str :: "json \<Rightarrow> string"
  interp_text :: "exn \<Rightarrow> string"
  requests_head :: "string \<Rightarrow> exn + string option"
  requests_post :: "string \<Rightarrow> (string \<times> string) list \<Rightarrow> payload \<Rightarrow> bool \<Rightarrow> exn + response"
  pop_system_message :: "json \<Rightarrow> exn + json \<times> json list"

text \<open>
  \<open>str(e)\<close>: the message an exception was raised with, the \<open>repr\<close> of the key for a
  \<open>KeyError\<close>, the interpreter's wording for the errors it raises itself.
\<close>

fun exn_str :: "lib \<Rightarrow> exn \<Rightarrow> string" where
  "exn_str L (KeyError k) = [CHR 0x27] @ k @ [CHR 0x27]"
| "exn_str L (ValueError m) = m"
| "exn_str L (JSONDecodeError m) = m"
| "exn_str L (UnicodeDecodeError m) = m"
| "exn_str L (Timeout m) = m"
| "exn_str L (RequestException m) = m"
| "exn_str L e = interp_text L e"

section \<open>Configuration\<close>

text \<open>
  The valves the code reads.  The two timeouts are only handed on to \<open>requests.post\<close>
  and belong to what \<open>requests_post\<close> stands for.
\<close>

record valves =
  ANTHROPIC_API_KEY :: string
  ANTHROPIC_API_VERSION :: string
  MAX_TOKENS :: int
  TEMPERATURE :: rat

definition MAX_IMAGE_SIZE :: int where
  "MAX_IMAGE_SIZE = 5 * 1024 * 1024"

definition MAX_TOTAL_IMAGE_SIZE :: int where
  "MAX_TOTAL_IMAGE_SIZE = 100 * 1024 * 1024"

section \<open>Model resolution\<close>

definition extract_model_id :: "json \<Rightarrow> exn + json" where
  "extract_model_id model_string =
     (if \<not> truthy model_string then Inl (ValueError ''Model string is empty'')
      else case py_contains ''.'' model_string of
        Inl e \<Rightarrow> Inl e
      | Inr True \<Rightarrow>
          (case model_string of
             JStr s \<Rightarrow>
               (case py_index (split_once CHR ''.'' s) 1 of
                  Inl e \<Rightarrow> Inl e
                | Inr r \<Rightarrow> Inr (JStr r))
           | v \<Rightarrow> Inl (AttributeError v ''split''))
      | Inr False \<Rightarrow> Inr model_string)"

section \<open>Image validation\<close>

definition estimated_size :: "string \<Rightarrow> rat" where
  "estimated_size base64_data = of_nat (length base64_data) * 3 / 4"

definition megabytes :: "rat \<Rightarrow> rat" where
  "megabytes x = x / (1024 * 1024)"

definition image_too_large :: "lib \<Rightarrow> rat \<Rightarrow> exn" where
  "image_too_large L image_size =
     ValueError (''Image size exceeds 5MB limit: '' @ format_2f L (megabytes image_size) @ ''MB'')"

definition url_image_too_large :: "lib \<Rightarrow> int \<Rightarrow> exn" where
  "url_image_too_large L content_length =
     ValueError (''Image at URL exceeds 5MB limit: ''
                 @ format_2f L (megabytes (of_int content_length)) @ ''MB'')"

definition base64_block :: "string \<Rightarrow> string \<Rightarrow> json" where
  "base64_block media_type base64_data =
     JObj [(''type'', JStr ''image''),
           (''source'', JObj [(''type'', JStr ''base64''),
                              (''media_type'', JStr media_type),
                              (''data'', JStr base64_data)])]"

definition url_block :: "string \<Rightarrow> json" where
  "url_block url =
     JObj [(''type'', JStr ''image''),
           (''source'', JObj [(''type'', JStr ''url''), (''url'', JStr url)])]"

text \<open>The branch of \<open>process_image\<close> for a \<open>data:image\<close> URL.\<close>

definition process_inline :: "lib \<Rightarrow> string \<Rightarrow> exn + json" where
  "process_inline L url =
     (case split_once CHR '','' url of
        [mime_type, base64_data] \<Rightarrow>
          (case py_index (split_on CHR '':'' mime_type) 1 of
             Inl e \<Rightarrow> Inl e
           | Inr after_colon \<Rightarrow>
               (case py_index (split_on CHR '';'' after_colon) 0 of
                  Inl e \<Rightarrow> Inl e
                | Inr media_type \<Rightarrow>
                    if estimated_size base64_data > of_int MAX_IMAGE_SIZE
                    then Inl (image_too_large L (estimated_size base64_data))
                    else Inr (base64_block media_type base64_data)))
      | _ \<Rightarrow> Inl (ValueError ''not enough values to unpack (expected 2, got 1)''))"

text \<open>
  The branch for any other URL: the HEAD probe.  Inside the inner \<open>try\<close>, only a
  \<open>RequestException\<close> is caught; anything else leaves \<open>process_image\<close>.
\<close>

definition probe :: "lib \<Rightarrow> string \<Rightarrow> exn + unit" where
  "probe L url =
     (case requests_head L url of
        Inl e \<Rightarrow> Inl e
      | Inr header \<Rightarrow>
          (case (case header of None \<Rightarrow> Inr 0 | Some h \<Rightarrow> py_int L h) of
             Inl e \<Rightarrow> Inl e
           | Inr content_length \<Rightarrow>
               if content_length > MAX_IMAGE_SIZE
               then Inl (url_image_too_large L content_length)
               else Inr ()))"

definition process_remote :: "lib \<Rightarrow> string \<Rightarrow> exn + json" where
  "process_remote L url =
     (case probe L url of
        Inl e \<Rightarrow> if is_request_exception e then Inr (url_block url) else Inl e
      | Inr u \<Rightarrow> Inr (url_block url))"

definition process_image :: "lib \<Rightarrow> json \<Rightarrow> exn + json" where
  "process_image L image_data =
     (case py_getitem image_data ''image_url'' of
        Inl e \<Rightarrow> Inl e
      | Inr image_url \<Rightarrow>
          (case py_getitem image_url ''url'' of
             Inl e \<Rightarrow> Inl e
           | Inr (JStr url) \<Rightarrow>
               if prefix ''data:image'' url then process_inline L url
               else process_remote L url
           | Inr v \<Rightarrow> Inl (AttributeError v ''startswith'')))"

section \<open>Message normalization\<close>

text \<open>
  How a step of a loop of \<open>pipe\<close> ends: it goes on with the next step, \<open>pipe\<close> returns a
  value, or an exception leaves \<open>pipe\<close>.
\<close>

datatype 'a flow = Next 'a | Ret json | Exc exn

definition text_block :: "json \<Rightarrow> json" where
  "text_block t = JObj [(''type'', JStr ''text''), (''text'', t)]"

definition failed_image :: "lib \<Rightarrow> exn \<Rightarrow> json" where
  "failed_image L e = JStr (''Error: Failed to process image: '' @ exn_str L e)"

definition total_too_large :: "lib \<Rightarrow> rat \<Rightarrow> exn" where
  "total_too_large L total_image_size =
     ValueError (''Total image size exceeds 100MB limit: '' @ format_2f L (megabytes total_image_size) @ ''MB'')"

text \<open>
  The body of the \<open>try\<close> around \<open>process_image\<close>: the state is the content processed so
  far and the running total; an exception is turned into the returned error text by
  the caller.
\<close>

definition track_image :: "lib \<Rightarrow> json \<Rightarrow> json list \<times> rat \<Rightarrow> exn + json list \<times> rat" where
  "track_image L item st =
     (case process_image L item of
        Inl e \<Rightarrow> Inl e
      | Inr processed_image \<Rightarrow>
          (case py_getitem processed_image ''source'' of
             Inl e \<Rightarrow> Inl e
           | Inr source \<Rightarrow>
               (case py_getitem source ''type'' of
                  Inl e \<Rightarrow> Inl e
                | Inr ty \<Rightarrow>
                    if ty = JStr ''base64'' then
                      (case py_getitem source ''data'' of
                         Inl e \<Rightarrow> Inl e
                       | Inr d \<Rightarrow>
                           (case py_len d of
                              Inl e \<Rightarrow> Inl e
                            | Inr n \<Rightarrow>
                                let total_image_size = snd st + of_nat n * 3 / 4 in
                                if total_image_size > of_int MAX_TOTAL_IMAGE_SIZE
                                then Inl (total_too_large L total_image_size)
                                else Inr (fst st @ [processed_image], total_image_size)))
                    else Inr (fst st @ [processed_image], snd st))))"

definition process_item :: "lib \<Rightarrow> json \<Rightarrow> json list \<times> rat \<Rightarrow> (json list \<times> rat) flow" where
  "process_item L item st =
     (case py_getitem item ''type'' of
        Inl e \<Rightarrow> Exc e
      | Inr ty \<Rightarrow>
          if ty = JStr ''text'' then
            (case py_getitem item ''text'' of
               Inl e \<Rightarrow> Exc e
             | Inr t \<Rightarrow> Next (fst st @ [text_block t], snd st))
          else if ty = JStr ''image_url'' then
            (case track_image L item st of
               Inl e \<Rightarrow> Ret (failed_image L e)
             | Inr st' \<Rightarrow> Next st')
          else Next st)"

fun process_items :: "lib \<Rightarrow> json list \<Rightarrow> json list \<times> rat \<Rightarrow> (json list \<times> rat) flow" where
  "process_items L [] st = Next st"
| "process_items L (item # items) st =
     (case process_item L item st of
        Next st' \<Rightarrow> process_items L items st'
      | Ret v \<Rightarrow> Ret v
      | Exc e \<Rightarrow> Exc e)"

text \<open>
  One round of the loop over the messages: the state is the list of processed messages
  and the running total.
\<close>

definition process_message :: "lib \<Rightarrow> json \<Rightarrow> json list \<times> rat \<Rightarrow> (json list \<times> rat) flow" where
  "process_message L message st =
     (case py_get message ''content'' JNull of
        Inl e \<Rightarrow> Exc e
      | Inr (JArr items) \<Rightarrow>
          (case process_items L items ([], snd st) of
             Next (processed_content, total_image_size) \<Rightarrow>
               (case py_getitem message ''role'' of
                  Inl e \<Rightarrow> Exc e
                | Inr role \<Rightarrow>
                    Next (fst st @ [JObj [(''role'', role), (''content'', JArr processed_content)]],
                          total_image_size))
           | Ret v \<Rightarrow> Ret v
           | Exc e \<Rightarrow> Exc e)
      | Inr c \<Rightarrow>
          (case py_get message ''content'' (JStr []) of
             Inl e \<Rightarrow> Exc e
           | Inr t \<Rightarrow>
               (case py_getitem message ''role'' of
                  Inl e \<Rightarrow> Exc e
                | Inr role \<Rightarrow>
                    Next (fst st @ [JObj [(''role'', role), (''content'', JArr [text_block t])]],
                          snd st))))"

fun process_messages :: "lib \<Rightarrow> json list \<Rightarrow> json list \<times> rat \<Rightarrow> (json list \<times> rat) flow" where
  "process_messages L [] st = Next st"
| "process_messages L (message # rest) st =
     (case process_message L message st of
        Next st' \<Rightarrow> process_messages L rest st'
      | Ret v \<Rightarrow> Ret v
      | Exc e \<Rightarrow> Exc e)"

section \<open>Response parsing\<close>

definition http_error :: "response \<Rightarrow> json" where
  "http_error r = JStr (''Error: HTTP '' @ show_int (status_code r) @ '': '' @ resp_text r)"

subsection \<open>Streaming\<close>

text \<open>What one round of the loop over the lines of the feed does.\<close>

datatype step = Yield json | Break | Skip | Abort exn

text \<open>The body of the inner \<open>try\<close>, before its two handlers.\<close>

definition handle_data :: "lib \<Rightarrow> string \<Rightarrow> exn + step" where
  "handle_data L s =
     (case json_loads L s of
        Inl e \<Rightarrow> Inl e
      | Inr data \<Rightarrow>
          (case py_getitem data ''type'' of
             Inl e \<Rightarrow> Inl e
           | Inr ty \<Rightarrow>
               if ty = JStr ''content_block_delta'' then
                 (case py_contains ''delta'' data of
                    Inl e \<Rightarrow> Inl e
                  | Inr False \<Rightarrow> Inr Skip
                  | Inr True \<Rightarrow>
                      (case py_getitem data ''delta'' of
                         Inl e \<Rightarrow> Inl e
                       | Inr delta \<Rightarrow>
                           (case py_contains ''text'' delta of
                              Inl e \<Rightarrow> Inl e
                            | Inr False \<Rightarrow> Inr Skip
                            | Inr True \<Rightarrow>
                                (case py_getitem delta ''text'' of
                                   Inl e \<Rightarrow> Inl e
                                 | Inr t \<Rightarrow> Inr (Yield t)))))
               else if ty = JStr ''message_stop'' then Inr Break
               else Inr Skip))"

fun caught_in_loop :: "exn \<Rightarrow> bool" where
  "caught_in_loop (JSONDecodeError m) = True"
| "caught_in_loop (KeyError k) = True"
| "caught_in_loop e = False"

definition handle_line :: "lib \<Rightarrow> string \<Rightarrow> step" where
  "handle_line L line =
     (if line = [] then Skip
      else case utf8_decode L line of
        Inl e \<Rightarrow> Abort e
      | Inr s \<Rightarrow>
          if prefix ''data: '' s then
            (case handle_data L (drop 6 s) of
               Inl e \<Rightarrow> if caught_in_loop e then Skip else Abort e
             | Inr st \<Rightarrow> st)
          else Skip)"

text \<open>
  The loop over the feed: the fragments yielded, and the exception that ended the loop,
  if one did.
\<close>

fun stream_loop :: "lib \<Rightarrow> (exn + string) list \<Rightarrow> json list \<times> exn option" where
  "stream_loop L [] = ([], None)"
| "stream_loop L (Inl e # rest) = ([], Some e)"
| "stream_loop L (Inr line # rest) =
     (case handle_line L line of
        Yield t \<Rightarrow> (t # fst (stream_loop L rest), snd (stream_loop L rest))
      | Break \<Rightarrow> ([], None)
      | Skip \<Rightarrow> stream_loop L rest
      | Abort e \<Rightarrow> ([], Some e))"

text \<open>The three handlers at the end of \<open>stream_response\<close>.\<close>

fun stream_failure :: "lib \<Rightarrow> exn \<Rightarrow> json" where
  "stream_failure L (Timeout m) = JStr ''Error: Request timeout''"
| "stream_failure L (RequestException m) =
     JStr (''Error: Request failed: '' @ exn_str L (RequestException m))"
| "stream_failure L e = JStr (''Error: '' @ exn_str L e)"

text \<open>The fragments the generator yields when it is consumed to its end.\<close>

definition stream_response ::
  "lib \<Rightarrow> string \<Rightarrow> (string \<times> string) list \<Rightarrow> payload \<Rightarrow> json list" where
  "stream_response L url headers p =
     (case requests_post L url headers p True of
        Inl e \<Rightarrow> [stream_failure L e]
      | Inr r \<Rightarrow>
          if status_code r \<noteq> 200 then [http_error r]
          else (case stream_loop L (iter_lines r) of
                  (out, None) \<Rightarrow> out
                | (out, Some e) \<Rightarrow> out @ [stream_failure L e]))"

subsection \<open>Non-streaming\<close>

fun first_text :: "json list \<Rightarrow> exn + json" where
  "first_text [] = Inr (JStr [])"
| "first_text (content # rest) =
     (case py_get content ''type'' JNull of
        Inl e \<Rightarrow> Inl e
      | Inr ty \<Rightarrow>
          if ty = JStr ''text'' then py_get content ''text'' (JStr [])
          else first_text rest)"

definition extract_text :: "json \<Rightarrow> exn + json" where
  "extract_text res =
     (case py_contains ''content'' res of
        Inl e \<Rightarrow> Inl e
      | Inr False \<Rightarrow> Inr (JStr [])
      | Inr True \<Rightarrow>
          (case py_getitem res ''content'' of
             Inl e \<Rightarrow> Inl e
           | Inr c \<Rightarrow>
               if truthy c then
                 (case py_iter c of Inl e \<Rightarrow> Inl e | Inr blocks \<Rightarrow> first_text blocks)
               else Inr (JStr [])))"

fun non_stream_failure :: "lib \<Rightarrow> exn \<Rightarrow> json" where
  "non_stream_failure L (Timeout m) = JStr ''Error: Request timeout''"
| "non_stream_failure L e = JStr (''Error: '' @ exn_str L e)"

definition non_stream_response ::
  "lib \<Rightarrow> string \<Rightarrow> (string \<times> string) list \<Rightarrow> payload \<Rightarrow> json" where
  "non_stream_response L url headers p =
     (case requests_post L url headers p False of
        Inl e \<Rightarrow> non_stream_failure L e
      | Inr r \<Rightarrow>
          if status_code r \<noteq> 200 then http_error r
          else (case json_body r of
                  Inl e \<Rightarrow> non_stream_failure L e
                | Inr res \<Rightarrow>
                    (case extract_text res of
                       Inl e \<Rightarrow> non_stream_failure L e
                     | Inr t \<Rightarrow> t)))"

section \<open>The entry point\<close>

text \<open>
  What a call of \<open>pipe\<close> gives its caller: a returned value, a generator (given by the
  fragments it yields), or an exception.  The second component of the outcome lists
  the payloads posted to the remote endpoint.
\<close>

datatype pipe_result = Return json | Generator "json list" | Raised exn

definition dict_get :: "(string \<times> json) list \<Rightarrow> string \<Rightarrow> json \<Rightarrow> json" where
  "dict_get d k dflt = (case map_of d k of None \<Rightarrow> dflt | Some v \<Rightarrow> v)"

definition api_url :: string where
  "api_url = ''https://api.anthropic.com/v1/messages''"

definition request_headers :: "valves \<Rightarrow> (string \<times> string) list" where
  "request_headers V =
     [(''x-api-key'', ANTHROPIC_API_KEY V),
      (''anthropic-version'', ANTHROPIC_API_VERSION V),
      (''content-type'', ''application/json'')]"

definition build_payload ::
  "lib \<Rightarrow> valves \<Rightarrow> (string \<times> json) list \<Rightarrow> json \<Rightarrow> json list \<Rightarrow> json \<Rightarrow> payload" where
  "build_payload L V body model_id processed_messages system_message =
     \<lparr> model = model_id,
       messages = processed_messages,
       max_tokens = dict_get body ''max_tokens'' (JInt (MAX_TOKENS V)),
       temperature = dict_get body ''temperature'' (JFloat (TEMPERATURE V)),
       stream = dict_get body ''stream'' (JBool False),
       stop_sequences =
         (if truthy (dict_get body ''stop'' JNull) then map_of body ''stop'' else None),
       system = (if truthy system_message then Some (py_str L system_message) else None) \<rparr>"

definition resolve_model :: "(string \<times> json) list \<Rightarrow> exn + json" where
  "resolve_model body =
     (case map_of body ''model'' of
        None \<Rightarrow> Inl (KeyError ''model'')
      | Some m \<Rightarrow> extract_model_id m)"

definition invalid_model :: "lib \<Rightarrow> exn \<Rightarrow> json" where
  "invalid_model L e = JStr (''Error: Invalid model format: '' @ exn_str L e)"

definition send :: "lib \<Rightarrow> valves \<Rightarrow> (string \<times> json) list \<Rightarrow> payload \<Rightarrow> pipe_result" where
  "send L V body p =
     (if truthy (dict_get body ''stream'' (JBool False))
      then Generator (stream_response L api_url (request_headers V) p)
      else Return (non_stream_response L api_url (request_headers V) p))"

definition pipe :: "lib \<Rightarrow> valves \<Rightarrow> (string \<times> json) list \<Rightarrow> pipe_result \<times> payload list" where
  "pipe L V body =
     (if ANTHROPIC_API_KEY V = [] then (Return (JStr ''Error: ANTHROPIC_API_KEY not configured''), [])
      else case map_of body ''messages'' of
        None \<Rightarrow> (Raised (KeyError ''messages''), [])
      | Some raw \<Rightarrow>
          (case pop_system_message L raw of
             Inl e \<Rightarrow> (Raised e, [])
           | Inr (system_message, msgs) \<Rightarrow>
               (case process_messages L msgs ([], 0) of
                  Exc e \<Rightarrow> (Raised e, [])
                | Ret v \<Rightarrow> (Return v, [])
                | Next (processed_messages, total_image_size) \<Rightarrow>
                    (case resolve_model body of
                       Inl e \<Rightarrow> (Return (invalid_model L e), [])
                     | Inr model_id \<Rightarrow>
                         (let p = build_payload L V body model_id processed_messages system_message
                          in (send L V body p, [p]))))))"

section \<open>A test double for the library\<close>

text \<open>
  A stand-in for the library, used to run the model on concrete inputs: \<open>json.loads\<close> is a
  table of the strings it decodes (any other string is invalid JSON), \<open>decode\<close> is the
  identity (ASCII lines), \<open>int\<close> reads a string of decimal digits and rejects any other
  string given to it here, the \<open>:.2f\<close> format rounds to the nearest hundredth (ties to
  even), \<open>requests.head\<close> is a table from URLs to answers (any other URL cannot be reached),
  \<open>requests.post\<close> gives a fixed answer, and \<open>pop_system_message\<close> returns the first
  message of role \<open>system\<close> and the list of the other messages.
\<close>

definition round_half_even :: "rat \<Rightarrow> int" where
  "round_half_even x =
     (let f = \<lfloor>x\<rfloor>; d = x - of_int f in
      if d < 1 / 2 then f else if d > 1 / 2 then f + 1 else if even f then f else f + 1)"

definition two_decimals :: "rat \<Rightarrow> string" where
  "two_decimals x =
     (let q = nat (round_half_even (\<bar>x\<bar> * 100)) in
      (if x < 0 then ''-'' else []) @ show_nat (q div 100) @ ''.''
        @ [char_of (48 + q mod 100 div 10), char_of (48 + q mod 10)])"

definition is_digit :: "char \<Rightarrow> bool" where
  "is_digit c = (48 \<le> (of_char c :: nat) \<and> (of_char c :: nat) \<le> 57)"

definition stub_int :: "string \<Rightarrow> exn + int" where
  "stub_int s =
     (if s \<noteq> [] \<and> list_all is_digit s
      then Inr (int (foldl (\<lambda>a c. 10 * a + (of_char c - 48)) 0 s))
      else Inl (ValueError (''invalid literal for int() with base 10: ''
                            @ [CHR 0x27] @ s @ [CHR 0x27])))"

definition is_system :: "json \<Rightarrow> bool" where
  "is_system m = (py_getitem m ''role'' = Inr (JStr ''system''))"

definition stub_pop :: "json \<Rightarrow> exn + json \<times> json list" where
  "stub_pop raw =
     (case raw of
        JArr ms \<Rightarrow>
          Inr ((case filter is_system ms of [] \<Rightarrow> JNull | m # rest \<Rightarrow> m),
               filter (\<lambda>m. \<not> is_system m) ms)
      | v \<Rightarrow> Inl (TypeError v))"

definition stub_lib ::
  "(string \<times> json) list \<Rightarrow> (string \<times> (exn + string option)) list \<Rightarrow> exn + response \<Rightarrow> lib" where
  "stub_lib decodes heads answer =
     \<lparr> json_loads =
         (\<lambda>s. case map_of decodes s of
                 None \<Rightarrow> Inl (JSONDecodeError ''Expecting value'')
               | Some v \<Rightarrow> Inr v),
       utf8_decode = Inr,
       py_int = stub_int,
       format_2f = two_decimals,
       py_str = (\<lambda>v. case v of JStr s \<Rightarrow> s | _ \<Rightarrow> ''<object>''),
       interp_text = (\<lambda>e. ''<interpreter error>''),
       requests_head =
         (\<lambda>u. case map_of heads u of
                 None \<Rightarrow> Inl (RequestException ''connection refused'')
               | Some h \<Rightarrow> h),
       requests_post = (\<lambda>u hs p s. answer),
       pop_system_message = stub_pop \<rparr>"

definition stub_valves :: valves where
  "stub_valves =
     \<lparr> ANTHROPIC_API_KEY = ''sk-test'', ANTHROPIC_API_VERSION = ''2023-06-01'',
       MAX_TOKENS = 4096, TEMPERATURE = 1 \<rparr>"

section \<open>Vocabulary of the properties\<close>

text \<open>The field \<open>k\<close> of a JSON object; a value that is not an object has no fields.\<close>

definition field :: "json \<Rightarrow> string \<Rightarrow> json option" where
  "field v k = (case v of JObj kvs \<Rightarrow> map_of kvs k | _ \<Rightarrow> None)"

definition is_object :: "json \<Rightarrow> bool" where
  "is_object v = (case v of JObj kvs \<Rightarrow> True | _ \<Rightarrow> False)"

text \<open>
  The events of the feed, as the spec names them: a content delta carries its text in
  \<open>delta.text\<close>, a message stop has the type \<open>message_stop\<close>.
\<close>

definition content_delta :: "json \<Rightarrow> json \<Rightarrow> bool" where
  "content_delta v t =
     (field v ''type'' = Some (JStr ''content_block_delta'')
      \<and> (case field v ''delta'' of
            Some d \<Rightarrow> is_object d \<and> field d ''text'' = Some t
          | None \<Rightarrow> False))"

definition message_stop :: "json \<Rightarrow> bool" where
  "message_stop v = (field v ''type'' = Some (JStr ''message_stop''))"

text \<open>A data line of the feed that decodes to the JSON value \<open>v\<close>.\<close>

definition data_line :: "lib \<Rightarrow> string \<Rightarrow> json \<Rightarrow> bool" where
  "data_line L line v =
     (line \<noteq> []
      \<and> (case utf8_decode L line of
            Inr s \<Rightarrow> prefix ''data: '' s \<and> json_loads L (drop 6 s) = Inr v
          | Inl e \<Rightarrow> False))"

text \<open>A data line whose payload is not valid JSON.\<close>

definition invalid_json_line :: "lib \<Rightarrow> string \<Rightarrow> bool" where
  "invalid_json_line L line =
     (line \<noteq> []
      \<and> (case utf8_decode L line of
            Inr s \<Rightarrow>
              prefix ''data: '' s
              \<and> (case json_loads L (drop 6 s) of
                    Inl (JSONDecodeError m) \<Rightarrow> True
                  | _ \<Rightarrow> False)
          | Inl e \<Rightarrow> False))"

text \<open>A blank line, or a line that is not a data line.\<close>

definition other_line :: "lib \<Rightarrow> string \<Rightarrow> bool" where
  "other_line L line =
     (line = []
      \<or> (case utf8_decode L line of
            Inr s \<Rightarrow> \<not> prefix ''data: '' s
          | Inl e \<Rightarrow> False))"

text \<open>
  What the spec says the non-streaming parser returns for a content list: the \<open>text\<close>
  field of the first block whose type is \<open>text\<close> (the empty string if that block has no
  such field), the empty string if there is no such block.
\<close>

definition first_text_block :: "json list \<Rightarrow> json" where
  "first_text_block blocks =
     (case find (\<lambda>b. field b ''type'' = Some (JStr ''text'')) blocks of
        None \<Rightarrow> JStr []
      | Some b \<Rightarrow> (case field b ''text'' of None \<Rightarrow> JStr [] | Some t \<Rightarrow> t))"

definition stub_payload :: payload where
  "stub_payload =
     \<lparr> model = JStr ''claude-opus-4-5'', messages = [], max_tokens = JInt 4096,
       temperature = JFloat 1, stream = JBool False, stop_sequences = None, system = None \<rparr>"

text \<open>Sample lines of the feed, and the events they decode to.\<close>

definition delta_text :: "string \<Rightarrow> string" where
  \<open>delta_text t =
     ''{"type":"content_block_delta","index":0,"delta":{"type":"text_delta","text":"'' @ t @ ''"}}''\<close>

definition delta_event :: "string \<Rightarrow> json" where
  "delta_event t =
     JObj [(''type'', JStr ''content_block_delta''), (''index'', JInt 0),
           (''delta'', JObj [(''type'', JStr ''text_delta''), (''text'', JStr t)])]"

definition stop_text :: string where
  \<open>stop_text = ''{"type":"message_stop"}''\<close>

definition stop_event :: json where
  "stop_event = JObj [(''type'', JStr ''message_stop'')]"

definition sample_decodes :: "(string \<times> json) list" where
  "sample_decodes =
     [(delta_text ''a'', delta_event ''a''), (delta_text ''b'', delta_event ''b''),
      (delta_text ''c'', delta_event ''c''), (stop_text, stop_event), (''5'', JInt 5)]"

definition sample_response :: "int \<Rightarrow> string \<Rightarrow> (exn + string) list \<Rightarrow> exn + json \<Rightarrow> response" where
  "sample_response st body feed js =
     \<lparr> status_code = st, resp_text = body, iter_lines = feed, json_body = js \<rparr>"

definition sample_feed :: "(exn + string) list" where
  "sample_feed =
     [Inr ''event: content_block_delta'', Inr (''data: '' @ delta_text ''a''), Inr [],
      Inr (''data: '' @ delta_text ''b''), Inr (''data: '' @ stop_text),
      Inr (''data: '' @ delta_text ''c''), Inl (Timeout ''read timed out'')]"

definition hello_text :: string where
  \<open>hello_text = ''{"content":[{"type":"text","text":"hello"}]}''\<close>

definition hello_body :: json where
  "hello_body = JObj [(''content'', JArr [JObj [(''type'', JStr ''text''), (''text'', JStr ''hello'')]])]"

text \<open>Sample content items and a sample request.\<close>

definition image_item :: "string \<Rightarrow> json" where
  "image_item url = JObj [(''type'', JStr ''image_url''), (''image_url'', JObj [(''url'', JStr url)])]"

definition user_message :: "json list \<Rightarrow> json" where
  "user_message items = JObj [(''role'', JStr ''user''), (''content'', JArr items)]"

definition request_body :: "json list \<Rightarrow> (string \<times> json) list" where
  "request_body msgs = [(''model'', JStr ''anthropic.claude-opus-4-5''), (''messages'', JArr msgs)]"

text \<open>
  The two kinds of content block the remote protocol accepts: a text block, and an
  image block with a base64 source or a URL source.
\<close>

definition is_string :: "json option \<Rightarrow> bool" where
  "is_string v = (case v of Some (JStr s) \<Rightarrow> True | _ \<Rightarrow> False)"

definition is_text_block :: "json \<Rightarrow> bool" where
  "is_text_block b = (field b ''type'' = Some (JStr ''text'') \<and> is_string (field b ''text''))"

definition is_image_block :: "json \<Rightarrow> bool" where
  "is_image_block b =
     (field b ''type'' = Some (JStr ''image'')
      \<and> (case field b ''source'' of
            None \<Rightarrow> False
          | Some src \<Rightarrow>
              (field src ''type'' = Some (JStr ''base64'')
               \<and> is_string (field src ''media_type'') \<and> is_string (field src ''data''))
              \<or> (field src ''type'' = Some (JStr ''url'') \<and> is_string (field src ''url''))))"

text \<open>Exactly one of the two.\<close>

definition accepted_block :: "json \<Rightarrow> bool" where
  "accepted_block b = (is_text_block b \<noteq> is_image_block b)"

text \<open>
  A block of type \<open>text\<close> that carries some value as its text, a string or not; and
  the blocks that are exactly one of such a block and an image block.
\<close>

definition carries_text :: "json \<Rightarrow> bool" where
  "carries_text b = (field b ''type'' = Some (JStr ''text'') \<and> field b ''text'' \<noteq> None)"

definition forwarded_block :: "json \<Rightarrow> bool" where
  "forwarded_block b = (carries_text b \<noteq> is_image_block b)"

text \<open>
  A message whose texts are strings: the text of every text item of a structured
  content, and an unstructured content if the message has one.
\<close>

definition item_text_ok :: "json \<Rightarrow> bool" where
  "item_text_ok item =
     (field item ''type'' \<noteq> Some (JStr ''text'') \<or> is_string (field item ''text''))"

definition message_text_ok :: "json \<Rightarrow> bool" where
  "message_text_ok m =
     (case field m ''content'' of
        Some (JArr items) \<Rightarrow> list_all item_text_ok items
      | Some c \<Rightarrow> is_string (Some c)
      | None \<Rightarrow> True)"

text \<open>
  What the spec says a message is normalized to: a text item passes through, an image
  item gives its validated image block, an item of any other type gives nothing; a
  content that is not a list is wrapped as one text block (the empty text if the
  message has no content).
\<close>

definition item_blocks :: "lib \<Rightarrow> json \<Rightarrow> json list" where
  "item_blocks L item =
     (if field item ''type'' = Some (JStr ''text'') then
        (case field item ''text'' of
           Some t \<Rightarrow> [JObj [(''type'', JStr ''text''), (''text'', t)]]
         | None \<Rightarrow> [])
      else if field item ''type'' = Some (JStr ''image_url'') then
        (case process_image L item of Inr b \<Rightarrow> [b] | Inl e \<Rightarrow> [])
      else [])"

definition message_blocks :: "lib \<Rightarrow> json \<Rightarrow> json list" where
  "message_blocks L m =
     (case field m ''content'' of
        Some (JArr items) \<Rightarrow> concat (map (item_blocks L) items)
      | Some c \<Rightarrow> [JObj [(''type'', JStr ''text''), (''text'', c)]]
      | None \<Rightarrow> [JObj [(''type'', JStr ''text''), (''text'', JStr [])]])"

definition normalized :: "lib \<Rightarrow> json \<Rightarrow> json" where
  "normalized L m =
     JObj [(''role'', (case field m ''role'' of Some r \<Rightarrow> r | None \<Rightarrow> JNull)),
           (''content'', JArr (message_blocks L m))]"

text \<open>
  The inline images of a batch and their estimated sizes: the payload of an item of
  type \<open>image_url\<close> whose URL starts with \<open>data:image\<close> is what follows the first comma.
\<close>

definition data_uri_payload :: "json \<Rightarrow> string option" where
  "data_uri_payload item =
     (case field item ''image_url'' of
        None \<Rightarrow> None
      | Some image_url \<Rightarrow>
          (case field image_url ''url'' of
             Some (JStr url) \<Rightarrow>
               if prefix ''data:image'' url \<and> CHR '','' \<in> set url
               then Some (tl (dropWhile (\<lambda>c. c \<noteq> CHR '','') url))
               else None
           | _ \<Rightarrow> None))"

definition inline_payload :: "json \<Rightarrow> string option" where
  "inline_payload item =
     (if field item ''type'' = Some (JStr ''image_url'') then data_uri_payload item else None)"

definition item_size :: "json \<Rightarrow> rat" where
  "item_size item = (case inline_payload item of Some b \<Rightarrow> estimated_size b | None \<Rightarrow> 0)"

definition message_items :: "json \<Rightarrow> json list" where
  "message_items m = (case field m ''content'' of Some (JArr items) \<Rightarrow> items | _ \<Rightarrow> [])"

definition batch_size :: "json list \<Rightarrow> rat" where
  "batch_size msgs = sum_list (map item_size (concat (map message_items msgs)))"

text \<open>
  A well-formed batch: every message is an object with a role, and every item of a
  structured content can be processed on its own (it has a type, a text item has its
  text, an image item passes \<open>process_image\<close>, so an inline image is at most 5 MiB).
\<close>

definition item_ok :: "lib \<Rightarrow> json \<Rightarrow> bool" where
  "item_ok L item =
     (case field item ''type'' of
        None \<Rightarrow> False
      | Some ty \<Rightarrow>
          (ty = JStr ''text'' \<longrightarrow> field item ''text'' \<noteq> None)
          \<and> (ty = JStr ''image_url'' \<longrightarrow> (case process_image L item of Inr b \<Rightarrow> True | Inl e \<Rightarrow> False)))"

definition message_ok :: "lib \<Rightarrow> json \<Rightarrow> bool" where
  "message_ok L m = (is_object m \<and> field m ''role'' \<noteq> None \<and> list_all (item_ok L) (message_items m))"

text \<open>The error text of the cumulative limit.\<close>

definition is_total_size_error :: "pipe_result \<Rightarrow> bool" where
  "is_total_size_error res =
     (case res of
        Return (JStr s) \<Rightarrow>
          prefix ''Error: Failed to process image: Total image size exceeds 100MB limit: '' s
      | _ \<Rightarrow> False)"

definition png_uri :: "string \<Rightarrow> string" where
  "png_uri b64 = ''data:image/png;base64,'' @ b64"

definition text_item :: "string \<Rightarrow> json" where
  "text_item t = JObj [(''type'', JStr ''text''), (''text'', JStr t)]"

definition sample_messages :: "json list" where
  "sample_messages =
     [user_message [text_item ''hi'', image_item (png_uri ''iVBORw0KGgo=''),
                    JObj [(''type'', JStr ''tool_use''), (''id'', JStr ''t1'')]],
      JObj [(''role'', JStr ''assistant''), (''content'', JStr ''hello'')]]"

definition sample_normalized :: "json list" where
  "sample_normalized =
     [JObj [(''role'', JStr ''user''),
            (''content'',
             JArr [JObj [(''type'', JStr ''text''), (''text'', JStr ''hi'')],
                   JObj [(''type'', JStr ''image''),
                         (''source'', JObj [(''type'', JStr ''base64''),
                                            (''media_type'', JStr ''image/png''),
                                            (''data'', JStr ''iVBORw0KGgo='')])]])],
      JObj [(''role'', JStr ''assistant''),
            (''content'', JArr [JObj [(''type'', JStr ''text''), (''text'', JStr ''hello'')]])]]"

definition null_message :: json where
  "null_message = JObj [(''role'', JStr ''assistant''), (''content'', JNull)]"

section \<open>Model resolution: properties\<close>

lemma sublist_single: "sublist [c] s \<longleftrightarrow> c \<in> set s"
  by (auto simp: sublist_def in_set_conv_decomp)

lemma split_once_at: "c \<notin> set pre \<Longrightarrow> split_once c (pre @ c # post) = [pre, post]"
  by (induction pre) (auto simp: split_once_def)

lemma split_once_none: "c \<notin> set s \<Longrightarrow> split_once c s = [s]"
  by (simp add: split_once_def)

lemma extract_model_id_after_separator:
  "CHR ''.'' \<notin> set pre \<Longrightarrow> extract_model_id (JStr (pre @ ''.'' @ post)) = Inr (JStr post)"
  by (simp add: extract_model_id_def sublist_single split_once_at py_index_def)

lemma extract_model_id_unchanged:
  "s \<noteq> [] \<Longrightarrow> CHR ''.'' \<notin> set s \<Longrightarrow> extract_model_id (JStr s) = Inr (JStr s)"
  by (simp add: extract_model_id_def sublist_single)

lemma extract_model_id_empty:
  "extract_model_id (JStr []) = Inl (ValueError ''Model string is empty'')"
  by (simp add: extract_model_id_def)

lemma pipe_empty_model:
  assumes "ANTHROPIC_API_KEY V \<noteq> []"
    and "map_of body ''messages'' = Some raw"
    and "pop_system_message L raw = Inr (system_message, msgs)"
    and "process_messages L msgs ([], 0) = Next st"
    and "map_of body ''model'' = Some (JStr [])"
  shows "pipe L V body = (Return (JStr ''Error: Invalid model format: Model string is empty''), [])"
  using assms
  by (cases st) (simp add: pipe_def resolve_model_def extract_model_id_empty invalid_model_def)

text \<open>
  C7.  Model resolution.  For a model string that contains the separator \<open>.\<close>,
  \<open>_extract_model_id\<close> returns exactly what follows the first separator; a non-empty
  string without a separator is returned unchanged; the empty string fails with the
  error "Model string is empty", and a call of \<open>pipe\<close> that gets as far as resolving the
  model then returns the text "Error: Invalid model format: Model string is empty"
  to its caller (a returned value, not an exception) and posts nothing.
\<close>

theorem model_resolution:
  "(CHR ''.'' \<notin> set pre \<longrightarrow> extract_model_id (JStr (pre @ ''.'' @ post)) = Inr (JStr post))
   \<and> (s \<noteq> [] \<and> CHR ''.'' \<notin> set s \<longrightarrow> extract_model_id (JStr s) = Inr (JStr s))
   \<and> extract_model_id (JStr []) = Inl (ValueError ''Model string is empty'')
   \<and> (ANTHROPIC_API_KEY V \<noteq> [] \<and> map_of body ''messages'' = Some raw
        \<and> pop_system_message L raw = Inr (system_message, msgs)
        \<and> process_messages L msgs ([], 0) = Next st
        \<and> map_of body ''model'' = Some (JStr [])
      \<longrightarrow> pipe L V body
          = (Return (JStr ''Error: Invalid model format: Model string is empty''), []))"
  using extract_model_id_after_separator [of pre post] extract_model_id_unchanged [of s]
    extract_model_id_empty pipe_empty_model [of V body raw L system_message msgs st]
  by blast

theorem model_resolution_witness:
  "CHR ''.'' \<notin> set ''anthropic''
   \<and> extract_model_id (JStr ''anthropic.claude-opus-4-5'') = Inr (JStr ''claude-opus-4-5'')
   \<and> ''claude-opus-4-5'' \<noteq> [] \<and> CHR ''.'' \<notin> set ''claude-opus-4-5''
   \<and> extract_model_id (JStr ''claude-opus-4-5'') = Inr (JStr ''claude-opus-4-5'')
   \<and> ANTHROPIC_API_KEY stub_valves \<noteq> []
   \<and> map_of [(''messages'', JArr []), (''model'', JStr [])] ''messages'' = Some (JArr [])
   \<and> pop_system_message (stub_lib [] [] (Inl (Timeout []))) (JArr []) = Inr (JNull, [])
   \<and> process_messages (stub_lib [] [] (Inl (Timeout []))) [] ([], 0) = Next ([], 0)
   \<and> map_of [(''messages'', JArr []), (''model'', JStr [])] ''model'' = Some (JStr [])
   \<and> pipe (stub_lib [] [] (Inl (Timeout []))) stub_valves [(''messages'', JArr []), (''model'', JStr [])]
       = (Return (JStr ''Error: Invalid model format: Model string is empty''), [])"
  using model_resolution [where pre = "''anthropic''" and post = "''claude-opus-4-5''"
      and s = "''claude-opus-4-5''" and V = stub_valves
      and body = "[(''messages'', JArr []), (''model'', JStr [])]" and raw = "JArr []"
      and L = "stub_lib [] [] (Inl (Timeout []))" and system_message = JNull and msgs = "[]"
      and st = "([], 0)"]
  by (simp add: stub_valves_def stub_lib_def stub_pop_def)

section \<open>Streaming: properties\<close>

lemma handle_line_other: "other_line L line \<Longrightarrow> handle_line L line = Skip"
  by (auto simp: other_line_def handle_line_def split: sum.splits)

lemma field_type:
  "field v ''type'' = Some ty \<Longrightarrow> py_getitem v ''type'' = Inr ty"
  by (cases v) (auto simp: field_def)

lemma handle_data_delta:
  assumes "json_loads L s = Inr v" "content_delta v t"
  shows "handle_data L s = Inr (Yield t)"
proof -
  from assms(2) obtain kvs where v: "v = JObj kvs"
    by (cases v) (auto simp: content_delta_def field_def)
  from assms(2) v obtain dkvs where d: "map_of kvs ''delta'' = Some (JObj dkvs)"
    and t: "map_of dkvs ''text'' = Some t" and ty: "map_of kvs ''type'' = Some (JStr ''content_block_delta'')"
    by (auto simp: content_delta_def field_def is_object_def split: option.splits json.splits)
  show ?thesis using assms(1) v d t ty by (simp add: handle_data_def)
qed

lemma handle_data_stop:
  assumes "json_loads L s = Inr v" "message_stop v"
  shows "handle_data L s = Inr Break"
proof -
  from assms(2) obtain kvs where v: "v = JObj kvs"
    by (cases v) (auto simp: message_stop_def field_def)
  show ?thesis using assms v by (simp add: handle_data_def message_stop_def field_def)
qed

lemma handle_line_delta:
  "data_line L line v \<Longrightarrow> content_delta v t \<Longrightarrow> handle_line L line = Yield t"
  by (auto simp: data_line_def handle_line_def handle_data_delta split: sum.splits)

lemma handle_line_stop:
  "data_line L line v \<Longrightarrow> message_stop v \<Longrightarrow> handle_line L line = Break"
  by (auto simp: data_line_def handle_line_def handle_data_stop split: sum.splits)

lemma handle_line_invalid_json:
  assumes "invalid_json_line L line"
  shows "handle_line L line = Skip"
proof -
  from assms obtain s where s: "utf8_decode L line = Inr s" "prefix ''data: '' s" "line \<noteq> []"
    by (auto simp: invalid_json_line_def split: sum.splits)
  with assms obtain m where "json_loads L (drop 6 s) = Inl (JSONDecodeError m)"
    by (cases "json_loads L (drop 6 s)") (auto simp: invalid_json_line_def split: exn.splits)
  with s show ?thesis by (simp add: handle_line_def handle_data_def)
qed

lemma stream_loop_skip:
  "list_all (\<lambda>l. handle_line L l = Skip) ls \<Longrightarrow> stream_loop L (map Inr ls @ rest) = stream_loop L rest"
  by (induction ls) auto

lemma stream_loop_yield:
  "handle_line L l = Yield t \<Longrightarrow>
   stream_loop L (Inr l # rest) = (t # fst (stream_loop L rest), snd (stream_loop L rest))"
  by simp

lemma stream_loop_break: "handle_line L l = Break \<Longrightarrow> stream_loop L (Inr l # rest) = ([], None)"
  by simp


text \<open>
  C1.  Streaming order and termination.  When the remote endpoint answers 200 and the
  data lines of the feed decode, in this order, to a content delta with text \<open>a\<close>, a
  content delta with text \<open>b\<close> and a message stop (blank lines and lines that are not
  data lines may stand between them), the generator yields exactly \<open>a\<close> and then \<open>b\<close>,
  and nothing after the message stop, whatever the feed holds after it (\<open>rest\<close> is
  arbitrary: more lines, or a read that would fail).
\<close>

theorem stream_ordering:
  assumes post: "requests_post L url headers p True = Inr r"
    and ok: "status_code r = 200"
    and feed: "iter_lines r
               = map Inr pre0 @ Inr la # map Inr pre1 @ Inr lb # map Inr pre2 @ Inr lstop # rest"
    and others: "list_all (other_line L) pre0" "list_all (other_line L) pre1"
      "list_all (other_line L) pre2"
    and a: "data_line L la va" "content_delta va (JStr a)"
    and b: "data_line L lb vb" "content_delta vb (JStr b)"
    and stop: "data_line L lstop vstop" "message_stop vstop"
  shows "stream_loop L (iter_lines r) = ([JStr a, JStr b], None)
         \<and> stream_response L url headers p = [JStr a, JStr b]"
proof -
  have skip: "list_all (\<lambda>l. handle_line L l = Skip) ls" if "list_all (other_line L) ls" for ls
    using that by (induction ls) (auto simp: handle_line_other)
  have "stream_loop L (Inr lstop # rest) = ([], None)"
    using handle_line_stop [OF stop] by simp
  then have "stream_loop L (map Inr pre2 @ Inr lstop # rest) = ([], None)"
    using stream_loop_skip [OF skip [OF others(3)]] by simp
  then have "stream_loop L (Inr lb # map Inr pre2 @ Inr lstop # rest) = ([JStr b], None)"
    using handle_line_delta [OF b] by simp
  then have "stream_loop L (map Inr pre1 @ Inr lb # map Inr pre2 @ Inr lstop # rest)
             = ([JStr b], None)"
    using stream_loop_skip [OF skip [OF others(2)]] by simp
  then have "stream_loop L (Inr la # map Inr pre1 @ Inr lb # map Inr pre2 @ Inr lstop # rest)
             = ([JStr a, JStr b], None)"
    using handle_line_delta [OF a] by simp
  then have loop: "stream_loop L (iter_lines r) = ([JStr a, JStr b], None)"
    using stream_loop_skip [OF skip [OF others(1)]] feed by simp
  then show ?thesis using post ok by (simp add: stream_response_def)
qed

theorem stream_ordering_witness:
  "requests_post (stub_lib sample_decodes [] (Inr (sample_response 200 [] sample_feed (Inl IndexError)))) api_url [] stub_payload True
     = Inr (sample_response 200 [] sample_feed (Inl IndexError))
   \<and> status_code (sample_response 200 [] sample_feed (Inl IndexError)) = 200
   \<and> iter_lines (sample_response 200 [] sample_feed (Inl IndexError))
       = map Inr [''event: content_block_delta''] @ Inr (''data: '' @ delta_text ''a'')
         # map Inr [[]] @ Inr (''data: '' @ delta_text ''b'')
         # map Inr [] @ Inr (''data: '' @ stop_text)
         # [Inr (''data: '' @ delta_text ''c''), Inl (Timeout ''read timed out'')]
   \<and> list_all (other_line (stub_lib sample_decodes [] (Inr (sample_response 200 [] sample_feed (Inl IndexError))))) [''event: content_block_delta'']
   \<and> list_all (other_line (stub_lib sample_decodes [] (Inr (sample_response 200 [] sample_feed (Inl IndexError))))) [[]]
   \<and> list_all (other_line (stub_lib sample_decodes [] (Inr (sample_response 200 [] sample_feed (Inl IndexError))))) []
   \<and> data_line (stub_lib sample_decodes [] (Inr (sample_response 200 [] sample_feed (Inl IndexError)))) (''data: '' @ delta_text ''a'') (delta_event ''a'')
   \<and> content_delta (delta_event ''a'') (JStr ''a'')
   \<and> data_line (stub_lib sample_decodes [] (Inr (sample_response 200 [] sample_feed (Inl IndexError)))) (''data: '' @ delta_text ''b'') (delta_event ''b'')
   \<and> content_delta (delta_event ''b'') (JStr ''b'')
   \<and> data_line (stub_lib sample_decodes [] (Inr (sample_response 200 [] sample_feed (Inl IndexError)))) (''data: '' @ stop_text) stop_event
   \<and> message_stop stop_event
   \<and> stream_loop (stub_lib sample_decodes [] (Inr (sample_response 200 [] sample_feed (Inl IndexError)))) (iter_lines (sample_response 200 [] sample_feed (Inl IndexError)))
       = ([JStr ''a'', JStr ''b''], None)
   \<and> stream_response (stub_lib sample_decodes [] (Inr (sample_response 200 [] sample_feed (Inl IndexError)))) api_url [] stub_payload = [JStr ''a'', JStr ''b'']"
  using stream_ordering [where L = "stub_lib sample_decodes [] (Inr (sample_response 200 [] sample_feed (Inl IndexError)))"
      and url = api_url and headers = "[]" and p = stub_payload
      and r = "sample_response 200 [] sample_feed (Inl IndexError)"
      and ?pre0.0 = "[''event: content_block_delta'']" and la = "''data: '' @ delta_text ''a''"
      and ?pre1.0 = "[[]]" and lb = "''data: '' @ delta_text ''b''" and ?pre2.0 = "[]"
      and lstop = "''data: '' @ stop_text"
      and rest = "[Inr (''data: '' @ delta_text ''c''), Inl (Timeout ''read timed out'')]"
      and va = "delta_event ''a''" and a = "''a''" and vb = "delta_event ''b''" and b = "''b''"
      and vstop = stop_event]
  by (simp add: stub_lib_def sample_response_def sample_feed_def sample_decodes_def
      other_line_def data_line_def content_delta_def message_stop_def field_def is_object_def
      delta_text_def delta_event_def stop_text_def stop_event_def)

lemma handle_line_non_object:
  assumes "data_line L line v" "\<not> is_object v"
  shows "handle_line L line = Abort (TypeError v)"
proof -
  from assms(1) obtain s where s: "line \<noteq> []" "utf8_decode L line = Inr s" "prefix ''data: '' s"
    "json_loads L (drop 6 s) = Inr v"
    by (auto simp: data_line_def split: sum.splits)
  from assms(2) have "py_getitem v ''type'' = Inl (TypeError v)"
    by (cases v) (auto simp: is_object_def)
  with s show ?thesis by (simp add: handle_line_def handle_data_def)
qed

lemma handle_line_delta_null:
  assumes "data_line L line v"
    and "field v ''type'' = Some (JStr ''content_block_delta'')"
    and "field v ''delta'' = Some JNull"
  shows "handle_line L line = Abort (TypeError JNull)"
proof -
  from assms(1) obtain s where s: "line \<noteq> []" "utf8_decode L line = Inr s" "prefix ''data: '' s"
    "json_loads L (drop 6 s) = Inr v"
    by (auto simp: data_line_def split: sum.splits)
  from assms(2,3) obtain kvs where "v = JObj kvs"
    "map_of kvs ''type'' = Some (JStr ''content_block_delta'')" "map_of kvs ''delta'' = Some JNull"
    by (cases v) (auto simp: field_def)
  with s show ?thesis by (simp add: handle_line_def handle_data_def)
qed

text \<open>
  C4.  What the code does with a malformed event that is valid JSON but not an object
  (a number, a string, a list, \<open>null\<close>): subscripting it raises a \<open>TypeError\<close>, which
  neither handler of the loop catches (they catch \<open>JSONDecodeError\<close> and \<open>KeyError\<close>
  only), so the final handler of \<open>stream_response\<close> yields one error fragment and the
  stream ends there: the lines after the malformed one are never read.
\<close>

theorem stream_aborts_on_non_object:
  assumes post: "requests_post L url headers p True = Inr r"
    and ok: "status_code r = 200"
    and feed: "iter_lines r = Inr la # Inr bad # rest"
    and a: "data_line L la va" "content_delta va (JStr a)"
    and bad: "data_line L bad v" "\<not> is_object v"
  shows "stream_response L url headers p
         = [JStr a, JStr (''Error: '' @ interp_text L (TypeError v))]"
  using post ok feed handle_line_delta [OF a] handle_line_non_object [OF bad]
  by (simp add: stream_response_def)

text \<open>
  The part of the robustness property that the code has: a data line that is not valid
  JSON between two content deltas is skipped, and both texts are yielded.
\<close>

lemma stream_skips_invalid_json:
  assumes post: "requests_post L url headers p True = Inr r"
    and ok: "status_code r = 200"
    and feed: "iter_lines r = [Inr la, Inr bad, Inr lb]"
    and a: "data_line L la va" "content_delta va (JStr a)"
    and bad: "invalid_json_line L bad"
    and b: "data_line L lb vb" "content_delta vb (JStr b)"
  shows "stream_response L url headers p = [JStr a, JStr b]"
  using post ok feed handle_line_delta [OF a] handle_line_delta [OF b]
    handle_line_invalid_json [OF bad]
  by (simp add: stream_response_def)

lemma non_2xx_not_200: "\<not> (200 \<le> (st::int) \<and> st < 300) \<Longrightarrow> st \<noteq> 200"
  by arith

lemma http_error_mentions:
  "\<exists>s. http_error r = JStr s \<and> sublist (show_int (status_code r)) s \<and> sublist (resp_text r) s"
proof -
  have "sublist (show_int (status_code r)) (''Error: HTTP '' @ show_int (status_code r) @ '': '' @ resp_text r)"
    by (rule sublist_appendI)
  moreover have "sublist (resp_text r) ((''Error: HTTP '' @ show_int (status_code r) @ '': '') @ resp_text r)"
    by (rule sublist_append_leftI)
  ultimately show ?thesis by (simp add: http_error_def)
qed

text \<open>
  C5.  Non-2xx status.  When the remote endpoint answers with a status outside
  \<open>200..299\<close>, the generator yields exactly one fragment and ends, without reading the
  lines of the body; the non-streaming path returns the same text; that text contains
  the decimal status code and the body.  Both results are values handed to the caller,
  no exception: \<open>send\<close>, the last step of \<open>pipe\<close>, gives the generator or the returned
  text.
\<close>

theorem non_2xx_status:
  assumes "\<not> (200 \<le> status_code r \<and> status_code r < 300)"
  shows "(requests_post L url headers p True = Inr r \<longrightarrow>
            stream_response L url headers p = [http_error r])
         \<and> (requests_post L url headers p False = Inr r \<longrightarrow>
            non_stream_response L url headers p = http_error r)
         \<and> (requests_post L api_url (request_headers V) p'
               (truthy (dict_get body ''stream'' (JBool False))) = Inr r \<longrightarrow>
            send L V body p'
            = (if truthy (dict_get body ''stream'' (JBool False))
               then Generator [http_error r] else Return (http_error r)))
         \<and> (\<exists>s. http_error r = JStr s \<and> sublist (show_int (status_code r)) s
                \<and> sublist (resp_text r) s)"
  using non_2xx_not_200 [OF assms] http_error_mentions [of r]
  by (simp add: stream_response_def non_stream_response_def send_def)

theorem non_2xx_status_witness:
  "\<not> (200 \<le> status_code (sample_response 401 ''unauthorized'' sample_feed (Inl IndexError))
        \<and> status_code (sample_response 401 ''unauthorized'' sample_feed (Inl IndexError)) < 300)
   \<and> stream_response
         (stub_lib sample_decodes [] (Inr (sample_response 401 ''unauthorized'' sample_feed (Inl IndexError))))
         api_url [] stub_payload
       = [JStr ''Error: HTTP 401: unauthorized'']
   \<and> non_stream_response
         (stub_lib sample_decodes [] (Inr (sample_response 401 ''unauthorized'' sample_feed (Inl IndexError))))
         api_url [] stub_payload
       = JStr ''Error: HTTP 401: unauthorized''
   \<and> send
         (stub_lib sample_decodes [] (Inr (sample_response 401 ''unauthorized'' sample_feed (Inl IndexError))))
         stub_valves [(''stream'', JBool True)] stub_payload
       = Generator [JStr ''Error: HTTP 401: unauthorized'']
   \<and> sublist ''401'' ''Error: HTTP 401: unauthorized''
   \<and> sublist ''unauthorized'' ''Error: HTTP 401: unauthorized''"
proof -
  have n: "show_int 401 = ''401''"
    by code_simp
  show ?thesis
    using non_2xx_status [where r = "sample_response 401 ''unauthorized'' sample_feed (Inl IndexError)"
        and L = "stub_lib sample_decodes [] (Inr (sample_response 401 ''unauthorized'' sample_feed (Inl IndexError)))"
        and url = api_url and headers = "[]" and p = stub_payload and p' = stub_payload
        and V = stub_valves and body = "[(''stream'', JBool True)]"]
    by (simp add: stub_lib_def sample_response_def http_error_def dict_get_def n)
qed

theorem stream_aborts_on_non_object_witness:
  "requests_post (stub_lib sample_decodes [] (Inr (sample_response 200 []
       [Inr (''data: '' @ delta_text ''a''), Inr ''data: 5'', Inr (''data: '' @ delta_text ''b'')]
       (Inl IndexError)))) api_url [] stub_payload True
     = Inr (sample_response 200 []
       [Inr (''data: '' @ delta_text ''a''), Inr ''data: 5'', Inr (''data: '' @ delta_text ''b'')]
       (Inl IndexError))
   \<and> data_line (stub_lib sample_decodes [] (Inr (sample_response 200 []
       [Inr (''data: '' @ delta_text ''a''), Inr ''data: 5'', Inr (''data: '' @ delta_text ''b'')]
       (Inl IndexError)))) ''data: 5'' (JInt 5)
   \<and> \<not> is_object (JInt 5)
   \<and> stream_response (stub_lib sample_decodes [] (Inr (sample_response 200 []
       [Inr (''data: '' @ delta_text ''a''), Inr ''data: 5'', Inr (''data: '' @ delta_text ''b'')]
       (Inl IndexError)))) api_url [] stub_payload
     = [JStr ''a'', JStr ''Error: <interpreter error>'']"
  using stream_aborts_on_non_object [where L = "stub_lib sample_decodes [] (Inr (sample_response 200 []
       [Inr (''data: '' @ delta_text ''a''), Inr ''data: 5'', Inr (''data: '' @ delta_text ''b'')]
       (Inl IndexError)))" and url = api_url and headers = "[]" and p = stub_payload
      and r = "sample_response 200 []
       [Inr (''data: '' @ delta_text ''a''), Inr ''data: 5'', Inr (''data: '' @ delta_text ''b'')]
       (Inl IndexError)"
      and la = "''data: '' @ delta_text ''a''" and bad = "''data: 5''"
      and rest = "[Inr (''data: '' @ delta_text ''b'')]" and va = "delta_event ''a''"
      and a = "''a''" and v = "JInt 5"]
  by (simp add: stub_lib_def sample_response_def sample_decodes_def
      data_line_def content_delta_def field_def is_object_def
      delta_text_def delta_event_def stop_text_def)

section \<open>Non-streaming extraction: properties\<close>

lemma first_text_objects:
  "list_all is_object blocks \<Longrightarrow> first_text blocks = Inr (first_text_block blocks)"
proof (induction blocks)
  case Nil
  then show ?case by (simp add: first_text_block_def)
next
  case (Cons b bs)
  then obtain kvs where b: "b = JObj kvs"
    by (cases b) (auto simp: is_object_def)
  with Cons show ?case
    by (auto simp: first_text_block_def field_def split: option.splits)
qed

lemma extract_text_content:
  assumes "field res ''content'' = Some (JArr blocks)" "list_all is_object blocks"
  shows "extract_text res = Inr (first_text_block blocks)"
proof -
  from assms(1) obtain kvs where res: "res = JObj kvs" "map_of kvs ''content'' = Some (JArr blocks)"
    by (cases res) (auto simp: field_def)
  show ?thesis
  proof (cases blocks)
    case Nil
    with res show ?thesis by (simp add: extract_text_def first_text_block_def)
  next
    case (Cons b bs)
    with res first_text_objects [OF assms(2)] show ?thesis by (simp add: extract_text_def)
  qed
qed

text \<open>
  C6, as amended.  Non-streaming extraction.  When the remote endpoint answers with the
  status 200 exactly and the JSON body is an object whose \<open>content\<close> is a list of
  objects, \<open>non_stream_response\<close> returns the \<open>text\<close> field of the first block whose
  type is \<open>text\<close> (the empty string if that block has no \<open>text\<close> field), and the empty
  string if no block has that type.  In particular the content
  \<open>[{"type":"text","text":"hello"}]\<close> gives \<open>hello\<close> and an empty list gives the empty
  string.  With any other status, 2xx or not, it returns the text
  "Error: HTTP <status>: <body>".
\<close>

theorem non_stream_extraction:
  assumes "requests_post L url headers p False = Inr r"
  shows "(status_code r = 200 \<and> json_body r = Inr res
            \<and> field res ''content'' = Some (JArr blocks) \<and> list_all is_object blocks
          \<longrightarrow> non_stream_response L url headers p = first_text_block blocks)
         \<and> (status_code r \<noteq> 200
          \<longrightarrow> non_stream_response L url headers p
              = JStr (''Error: HTTP '' @ show_int (status_code r) @ '': '' @ resp_text r))"
  using assms extract_text_content [of res blocks]
  by (auto simp: non_stream_response_def http_error_def)

lemma show_int_204: "show_int 204 = ''204''"
  by code_simp

theorem non_stream_extraction_witness:
  "requests_post (stub_lib [] [] (Inr (sample_response 200 hello_text [] (Inr hello_body))))
     api_url [] stub_payload False
     = Inr (sample_response 200 hello_text [] (Inr hello_body))
   \<and> status_code (sample_response 200 hello_text [] (Inr hello_body)) = 200
   \<and> json_body (sample_response 200 hello_text [] (Inr hello_body)) = Inr hello_body
   \<and> field hello_body ''content''
       = Some (JArr [JObj [(''type'', JStr ''text''), (''text'', JStr ''hello'')]])
   \<and> list_all is_object [JObj [(''type'', JStr ''text''), (''text'', JStr ''hello'')]]
   \<and> non_stream_response (stub_lib [] [] (Inr (sample_response 200 hello_text [] (Inr hello_body))))
       api_url [] stub_payload
       = JStr ''hello''
   \<and> non_stream_response
         (stub_lib [] [] (Inr (sample_response 200 [] [] (Inr (JObj [(''content'', JArr [])])))))
         api_url [] stub_payload
       = JStr []
   \<and> status_code (sample_response 204 [] [] (Inr hello_body)) \<noteq> 200
   \<and> non_stream_response (stub_lib [] [] (Inr (sample_response 204 [] [] (Inr hello_body))))
       api_url [] stub_payload
       = JStr ''Error: HTTP 204: ''"
  using show_int_204 non_stream_extraction [where L = "stub_lib [] [] (Inr (sample_response 204 [] [] (Inr hello_body)))"
      and url = api_url and headers = "[]" and p = stub_payload
      and r = "sample_response 204 [] [] (Inr hello_body)"]
    non_stream_extraction [where L = "stub_lib [] [] (Inr (sample_response 200 hello_text [] (Inr hello_body)))"
      and url = api_url and headers = "[]" and p = stub_payload
      and r = "sample_response 200 hello_text [] (Inr hello_body)" and res = hello_body
      and blocks = "[JObj [(''type'', JStr ''text''), (''text'', JStr ''hello'')]]"]
    non_stream_extraction [where L = "stub_lib [] [] (Inr (sample_response 200 [] [] (Inr (JObj [(''content'', JArr [])]))))"
      and url = api_url and headers = "[]" and p = stub_payload
      and r = "sample_response 200 [] [] (Inr (JObj [(''content'', JArr [])]))"
      and res = "JObj [(''content'', JArr [])]" and blocks = "[]"]
  by (simp add: stub_lib_def sample_response_def hello_body_def field_def is_object_def
      first_text_block_def)

text \<open>
  The claim as stated, for every 2xx response, fails at the status 201: the code
  compares the status with 200, so a 201 answer with the same body is reported as an
  HTTP error and \<open>hello\<close> is not returned.
\<close>

theorem non_stream_extraction_counterexample:
  "200 \<le> status_code (sample_response 201 hello_text [] (Inr hello_body))
   \<and> status_code (sample_response 201 hello_text [] (Inr hello_body)) < 300
   \<and> json_body (sample_response 201 hello_text [] (Inr hello_body)) = Inr hello_body
   \<and> first_text_block [JObj [(''type'', JStr ''text''), (''text'', JStr ''hello'')]] = JStr ''hello''
   \<and> non_stream_response (stub_lib [] [] (Inr (sample_response 201 hello_text [] (Inr hello_body))))
       api_url [] stub_payload
       = JStr (''Error: HTTP 201: '' @ hello_text)
   \<and> non_stream_response (stub_lib [] [] (Inr (sample_response 201 hello_text [] (Inr hello_body))))
       api_url [] stub_payload
       \<noteq> JStr ''hello''"
proof -
  have n: "show_int 201 = ''201''"
    by code_simp
  show ?thesis
    by (simp add: non_stream_response_def stub_lib_def sample_response_def http_error_def n
        first_text_block_def field_def)
qed

section \<open>Image validation: properties\<close>

lemma split_on_nonempty: "split_on c s \<noteq> []"
  by (induction s) auto

lemma hd_split_on: "hd (split_on c s) = takeWhile (\<lambda>x. x \<noteq> c) s"
  by (induction s) auto

lemma split_on_at: "c \<notin> set pre \<Longrightarrow> split_on c (pre @ c # post) = pre # split_on c post"
  by (induction pre) auto

lemma index_0_split_on: "py_index (split_on c s) 0 = Inr (takeWhile (\<lambda>x. x \<noteq> c) s)"
  using split_on_nonempty [of c s] hd_split_on [of c s]
  by (cases "split_on c s") (auto simp: py_index_def)

lemma index_1_split_on:
  "c \<notin> set pre \<Longrightarrow>
   py_index (split_on c (pre @ c # post)) 1 = Inr (takeWhile (\<lambda>x. x \<noteq> c) post)"
  using split_on_nonempty [of c post] hd_split_on [of c post]
  by (cases "split_on c post") (auto simp: py_index_def split_on_at)

lemma takeWhile_past: "c \<notin> set xs \<Longrightarrow> takeWhile (\<lambda>x. x \<noteq> c) (xs @ ys) = xs @ takeWhile (\<lambda>x. x \<noteq> c) ys"
  by (induction xs) auto

lemma media_type_of_header:
  assumes "CHR '':'' \<notin> set mt" "CHR '';'' \<notin> set mt"
    and "params = [] \<or> hd params = CHR '';''"
  shows "takeWhile (\<lambda>x. x \<noteq> CHR '';'') (takeWhile (\<lambda>x. x \<noteq> CHR '':'') (mt @ params)) = mt"
proof -
  have "takeWhile (\<lambda>x. x \<noteq> CHR '';'') (mt @ takeWhile (\<lambda>x. x \<noteq> CHR '':'') params) = mt"
    using assms(2,3) by (cases params) (auto simp: takeWhile_past)
  then show ?thesis
    using assms(1) by (simp add: takeWhile_past)
qed

lemma process_inline_split:
  assumes "CHR '','' \<notin> set h" "py_index (split_on CHR '':'' h) 1 = Inr ac"
  shows "process_inline L (h @ CHR '','' # b64)
         = (if estimated_size b64 > of_int MAX_IMAGE_SIZE
            then Inl (image_too_large L (estimated_size b64))
            else Inr (base64_block (takeWhile (\<lambda>x. x \<noteq> CHR '';'') ac) b64))"
  using assms by (simp add: process_inline_def split_once_at index_0_split_on)

lemma process_inline_data_uri:
  assumes "CHR '':'' \<notin> set mt" "CHR '';'' \<notin> set mt" "CHR '','' \<notin> set mt"
    and "params = [] \<or> hd params = CHR '';''" "CHR '','' \<notin> set params"
  shows "process_inline L (''data:'' @ mt @ params @ '','' @ b64)
         = (if estimated_size b64 > of_int MAX_IMAGE_SIZE
            then Inl (image_too_large L (estimated_size b64))
            else Inr (base64_block mt b64))"
proof -
  have c: "CHR '','' \<notin> set (''data'' @ CHR '':'' # (mt @ params))"
    using assms(3,5) by simp
  have d: "CHR '':'' \<notin> set ''data''"
    by simp
  have "process_inline L ((''data'' @ CHR '':'' # (mt @ params)) @ CHR '','' # b64)
        = (if estimated_size b64 > of_int MAX_IMAGE_SIZE
           then Inl (image_too_large L (estimated_size b64))
           else Inr (base64_block
                  (takeWhile (\<lambda>x. x \<noteq> CHR '';'') (takeWhile (\<lambda>x. x \<noteq> CHR '':'') (mt @ params))) b64))"
    by (rule process_inline_split [OF c index_1_split_on [OF d]])
  moreover have "(''data'' @ CHR '':'' # (mt @ params)) @ CHR '','' # b64
                 = ''data:'' @ mt @ params @ '','' @ b64"
    by simp
  ultimately show ?thesis
    by (simp only: media_type_of_header [OF assms(1,2,4)])
qed

text \<open>
  C3.  Per-image inline limit.  For an image item whose URL is a data URI
  \<open>data:<media type><parameters>,<payload>\<close> with a media type that starts with \<open>image\<close>
  (the media type holds no \<open>:\<close>, \<open>;\<close> or \<open>,\<close>, the parameters are empty or start with
  \<open>;\<close>, and the first comma is the one before the payload), \<open>process_image\<close> takes
  \<open>len(payload) * 3 / 4\<close> as the size: above 5 MiB it fails with the "Image size
  exceeds 5MB limit" error, and up to 5 MiB it returns the image block whose data is
  the payload itself and whose media type is the declared one.
\<close>

theorem inline_image_limit:
  assumes "field item ''image_url'' = Some image_url"
    and "field image_url ''url'' = Some (JStr (''data:'' @ mt @ params @ '','' @ b64))"
    and "prefix ''image'' mt"
    and "CHR '':'' \<notin> set mt" "CHR '';'' \<notin> set mt" "CHR '','' \<notin> set mt"
    and "params = [] \<or> hd params = CHR '';''" "CHR '','' \<notin> set params"
  shows "(of_nat (length b64) * 3 / 4 > (5 * 1024 * 1024 :: rat) \<longrightarrow>
            process_image L item
            = Inl (ValueError (''Image size exceeds 5MB limit: ''
                     @ format_2f L (of_nat (length b64) * 3 / 4 / (1024 * 1024)) @ ''MB'')))
         \<and> (of_nat (length b64) * 3 / 4 \<le> (5 * 1024 * 1024 :: rat) \<longrightarrow>
            process_image L item
            = Inr (JObj [(''type'', JStr ''image''),
                         (''source'', JObj [(''type'', JStr ''base64''),
                                            (''media_type'', JStr mt),
                                            (''data'', JStr b64)])]))"
proof -
  from assms(1) obtain kvs where item: "item = JObj kvs" "map_of kvs ''image_url'' = Some image_url"
    by (cases item) (auto simp: field_def)
  from assms(2) obtain us where iu: "image_url = JObj us"
    "map_of us ''url'' = Some (JStr (''data:'' @ mt @ params @ '','' @ b64))"
    by (cases image_url) (auto simp: field_def)
  from assms(3) have pre: "prefix ''data:image'' (''data:'' @ mt @ params @ '','' @ b64)"
    by (auto simp: prefix_def)
  have "process_image L item = process_inline L (''data:'' @ mt @ params @ '','' @ b64)"
    using item iu pre by (simp add: process_image_def)
  then show ?thesis
    using process_inline_data_uri [OF assms(4-8), of L b64]
    by (simp add: estimated_size_def MAX_IMAGE_SIZE_def image_too_large_def megabytes_def
        base64_block_def)
qed


lemma two_decimals_just_over: "two_decimals (20971521 / 4 / (1024 * 1024)) = ''5.00''"
  by code_simp

theorem inline_image_limit_witness:
  "field (image_item (''data:'' @ ''image/png'' @ '';base64'' @ '','' @ ''iVBORw0KGgo=''))
     ''image_url''
     = Some (JObj [(''url'', JStr (''data:'' @ ''image/png'' @ '';base64'' @ '','' @ ''iVBORw0KGgo=''))])
   \<and> field (JObj [(''url'', JStr (''data:'' @ ''image/png'' @ '';base64'' @ '','' @ ''iVBORw0KGgo=''))])
       ''url''
     = Some (JStr (''data:'' @ ''image/png'' @ '';base64'' @ '','' @ ''iVBORw0KGgo=''))
   \<and> prefix ''image'' ''image/png''
   \<and> CHR '':'' \<notin> set ''image/png'' \<and> CHR '';'' \<notin> set ''image/png''
   \<and> CHR '','' \<notin> set ''image/png''
   \<and> ('';base64'' = [] \<or> hd '';base64'' = CHR '';'') \<and> CHR '','' \<notin> set '';base64''
   \<and> of_nat (length ''iVBORw0KGgo='') * 3 / 4 \<le> (5 * 1024 * 1024 :: rat)
   \<and> process_image (stub_lib [] [] (Inl (Timeout []))) (image_item ''data:image/png;base64,iVBORw0KGgo='')
       = Inr (JObj [(''type'', JStr ''image''),
                    (''source'', JObj [(''type'', JStr ''base64''),
                                       (''media_type'', JStr ''image/png''),
                                       (''data'', JStr ''iVBORw0KGgo='')])])
   \<and> of_nat (length (replicate 6990507 CHR ''A'')) * 3 / 4 > (5 * 1024 * 1024 :: rat)
   \<and> process_image (stub_lib [] [] (Inl (Timeout []))) (image_item (''data:image/png;base64,'' @ replicate 6990507 CHR ''A''))
       = Inl (ValueError ''Image size exceeds 5MB limit: 5.00MB'')"
  using inline_image_limit [where item = "image_item (''data:'' @ ''image/png'' @ '';base64'' @ '','' @ ''iVBORw0KGgo='')"
      and image_url = "JObj [(''url'', JStr (''data:'' @ ''image/png'' @ '';base64'' @ '','' @ ''iVBORw0KGgo=''))]"
      and mt = "''image/png''" and params = "'';base64''" and ?b64.0 = "''iVBORw0KGgo=''" and L = "stub_lib [] [] (Inl (Timeout []))"]
    inline_image_limit [where item = "image_item (''data:'' @ ''image/png'' @ '';base64'' @ '','' @ replicate 6990507 CHR ''A'')"
      and image_url = "JObj [(''url'', JStr (''data:'' @ ''image/png'' @ '';base64'' @ '','' @ replicate 6990507 CHR ''A''))]"
      and mt = "''image/png''" and params = "'';base64''" and ?b64.0 = "replicate 6990507 CHR ''A''" and L = "stub_lib [] [] (Inl (Timeout []))"]
    two_decimals_just_over
  by (simp add: image_item_def field_def stub_lib_def)

text \<open>
  The probe of a remote image, case by case: a probe that fails with a
  \<open>RequestException\<close> and an answer without \<open>content-length\<close> let the image through; a
  declared length is compared with 5 MiB; a \<open>content-length\<close> that \<open>int\<close> rejects makes
  \<open>process_image\<close> fail.
\<close>

lemma process_remote_probe_failed:
  "requests_head L url = Inl e \<Longrightarrow> is_request_exception e \<Longrightarrow>
   process_remote L url = Inr (url_block url)"
  by (simp add: process_remote_def probe_def)

lemma process_remote_no_length:
  "requests_head L url = Inr None \<Longrightarrow> process_remote L url = Inr (url_block url)"
  by (simp add: process_remote_def probe_def MAX_IMAGE_SIZE_def)

lemma process_remote_length:
  "requests_head L url = Inr (Some h) \<Longrightarrow> py_int L h = Inr n \<Longrightarrow>
   process_remote L url
   = (if n > 5 * 1024 * 1024 then Inl (url_image_too_large L n) else Inr (url_block url))"
  by (simp add: process_remote_def probe_def MAX_IMAGE_SIZE_def url_image_too_large_def)

lemma process_remote_unusable_length:
  "requests_head L url = Inr (Some h) \<Longrightarrow> py_int L h = Inl e \<Longrightarrow> \<not> is_request_exception e \<Longrightarrow>
   process_remote L url = Inl e"
  by (simp add: process_remote_def probe_def)

lemma process_image_remote:
  assumes "field item ''image_url'' = Some image_url" "field image_url ''url'' = Some (JStr url)"
    and "\<not> prefix ''data:image'' url"
  shows "process_image L item = process_remote L url"
proof -
  from assms(1) obtain kvs where item: "item = JObj kvs" "map_of kvs ''image_url'' = Some image_url"
    by (cases item) (auto simp: field_def)
  from assms(2) obtain us where iu: "image_url = JObj us" "map_of us ''url'' = Some (JStr url)"
    by (cases image_url) (auto simp: field_def)
  show ?thesis using item iu assms(3) by (simp add: process_image_def)
qed

lemma process_item_image_failed:
  assumes "field item ''type'' = Some (JStr ''image_url'')" "process_image L item = Inl e"
  shows "process_item L item st = Ret (failed_image L e)"
proof -
  from assms(1) obtain kvs where item: "item = JObj kvs" "map_of kvs ''type'' = Some (JStr ''image_url'')"
    by (cases item) (auto simp: field_def)
  show ?thesis using item assms(2) by (simp add: process_item_def track_image_def)
qed

text \<open>
  C9.  What the code does when the probe succeeds but the declared length is unusable:
  \<open>int\<close> raises a \<open>ValueError\<close>, which the handler of the probe (for
  \<open>RequestException\<close> only) does not catch; it leaves \<open>process_image\<close>, and \<open>pipe\<close>
  returns "Error: Failed to process image: ..." instead of going on with the image
  block for the URL.
\<close>

theorem remote_probe_unusable_length:
  assumes "field item ''type'' = Some (JStr ''image_url'')"
    and "field item ''image_url'' = Some image_url"
    and "field image_url ''url'' = Some (JStr url)"
    and "\<not> prefix ''data:image'' url"
    and "requests_head L url = Inr (Some h)"
    and "py_int L h = Inl e"
    and "\<not> is_request_exception e"
  shows "process_image L item = Inl e \<and> process_item L item st = Ret (failed_image L e)"
proof -
  have "process_image L item = Inl e"
    using process_image_remote [OF assms(2-4)] process_remote_unusable_length [OF assms(5-7)]
    by simp
  then show ?thesis
    using process_item_image_failed [OF assms(1)] by simp
qed

theorem remote_probe_unusable_length_witness:
  "field (image_item ''https://example.com/cat.png'') ''type'' = Some (JStr ''image_url'')
   \<and> field (image_item ''https://example.com/cat.png'') ''image_url''
       = Some (JObj [(''url'', JStr ''https://example.com/cat.png'')])
   \<and> field (JObj [(''url'', JStr ''https://example.com/cat.png'')]) ''url''
       = Some (JStr ''https://example.com/cat.png'')
   \<and> \<not> prefix ''data:image'' ''https://example.com/cat.png''
   \<and> requests_head (stub_lib [] [(''https://example.com/cat.png'', Inr (Some ''abc''))] (Inl (Timeout [])))
       ''https://example.com/cat.png'' = Inr (Some ''abc'')
   \<and> py_int (stub_lib [] [(''https://example.com/cat.png'', Inr (Some ''abc''))] (Inl (Timeout []))) ''abc''
       = Inl (ValueError (''invalid literal for int() with base 10: '' @ [CHR 0x27] @ ''abc'' @ [CHR 0x27]))
   \<and> \<not> is_request_exception
         (ValueError (''invalid literal for int() with base 10: '' @ [CHR 0x27] @ ''abc'' @ [CHR 0x27]))
   \<and> process_image (stub_lib [] [(''https://example.com/cat.png'', Inr (Some ''abc''))] (Inl (Timeout [])))
       (image_item ''https://example.com/cat.png'')
       = Inl (ValueError (''invalid literal for int() with base 10: '' @ [CHR 0x27] @ ''abc'' @ [CHR 0x27]))
   \<and> pipe (stub_lib [] [(''https://example.com/cat.png'', Inr (Some ''abc''))] (Inl (Timeout [])))
       stub_valves (request_body [user_message [image_item ''https://example.com/cat.png'']])
       = (Return (JStr (''Error: Failed to process image: invalid literal for int() with base 10: ''
                        @ [CHR 0x27] @ ''abc'' @ [CHR 0x27])), [])"
proof -
  have "pipe (stub_lib [] [(''https://example.com/cat.png'', Inr (Some ''abc''))] (Inl (Timeout [])))
       stub_valves (request_body [user_message [image_item ''https://example.com/cat.png'']])
       = (Return (JStr (''Error: Failed to process image: invalid literal for int() with base 10: ''
                        @ [CHR 0x27] @ ''abc'' @ [CHR 0x27])), [])"
    using remote_probe_unusable_length [where item = "image_item ''https://example.com/cat.png''"
      and image_url = "JObj [(''url'', JStr ''https://example.com/cat.png'')]"
      and url = "''https://example.com/cat.png''"
      and L = "stub_lib [] [(''https://example.com/cat.png'', Inr (Some ''abc''))] (Inl (Timeout []))"
      and h = "''abc''"
      and e = "ValueError (''invalid literal for int() with base 10: '' @ [CHR 0x27] @ ''abc'' @ [CHR 0x27])"
      and st = "([], 0)"]
    by (simp add: pipe_def stub_valves_def request_body_def user_message_def stub_lib_def
        stub_pop_def is_system_def process_message_def image_item_def field_def stub_int_def
        is_digit_def failed_image_def)
  then show ?thesis
    using remote_probe_unusable_length [where item = "image_item ''https://example.com/cat.png''"
      and image_url = "JObj [(''url'', JStr ''https://example.com/cat.png'')]"
      and url = "''https://example.com/cat.png''"
      and L = "stub_lib [] [(''https://example.com/cat.png'', Inr (Some ''abc''))] (Inl (Timeout []))"
      and h = "''abc''"
      and e = "ValueError (''invalid literal for int() with base 10: '' @ [CHR 0x27] @ ''abc'' @ [CHR 0x27])"
      and st = "([], 0)"]
    by (simp add: stub_lib_def image_item_def field_def stub_int_def is_digit_def)
qed


section \<open>Normalization: properties\<close>

lemma process_item_text_missing:
  assumes "field item ''type'' = Some (JStr ''text'')" "field item ''text'' = None"
  shows "process_item L item st = Exc (KeyError ''text'')"
proof -
  from assms obtain kvs where "item = JObj kvs" "map_of kvs ''type'' = Some (JStr ''text'')"
    "map_of kvs ''text'' = None"
    by (cases item) (auto simp: field_def)
  then show ?thesis by (simp add: process_item_def)
qed

lemma process_item_image_missing:
  assumes "field item ''type'' = Some (JStr ''image_url'')" "is_object item"
    "field item ''image_url'' = None"
  shows "process_item L item st = Ret (failed_image L (KeyError ''image_url''))"
proof -
  from assms obtain kvs where "item = JObj kvs" "map_of kvs ''image_url'' = None"
    by (cases item) (auto simp: field_def)
  then have "process_image L item = Inl (KeyError ''image_url'')"
    by (simp add: process_image_def)
  then show ?thesis by (rule process_item_image_failed [OF assms(1)])
qed

text \<open>
  C8.  What the code does when a text item has no \<open>text\<close> field: the lookup
  \<open>item["text"]\<close> stands outside every \<open>try\<close> of \<open>pipe\<close>, so the \<open>KeyError\<close> leaves
  \<open>pipe\<close> as an exception instead of being returned as an error text (an image item
  without its \<open>image_url\<close> field, in contrast, gives the returned text: lemma
  \<open>process_item_image_missing\<close>).
\<close>

theorem text_item_failure_escapes:
  assumes "ANTHROPIC_API_KEY V \<noteq> []"
    and "map_of body ''messages'' = Some raw"
    and "pop_system_message L raw = Inr (system_message, message # rest)"
    and "field message ''content'' = Some (JArr (item # items))"
    and "field item ''type'' = Some (JStr ''text'')"
    and "field item ''text'' = None"
  shows "pipe L V body = (Raised (KeyError ''text''), [])"
proof -
  from assms(4) obtain kvs where m: "message = JObj kvs"
    "map_of kvs ''content'' = Some (JArr (item # items))"
    by (cases message) (auto simp: field_def)
  have "process_message L message ([], 0) = Exc (KeyError ''text'')"
    using m process_item_text_missing [OF assms(5,6)] by (simp add: process_message_def)
  then show ?thesis
    using assms(1-3) by (simp add: pipe_def)
qed

theorem text_item_failure_escapes_witness:
  "ANTHROPIC_API_KEY stub_valves \<noteq> []
   \<and> map_of (request_body [user_message [JObj [(''type'', JStr ''text'')]]]) ''messages''
       = Some (JArr [user_message [JObj [(''type'', JStr ''text'')]]])
   \<and> pop_system_message (stub_lib [] [] (Inl (Timeout [])))
         (JArr [user_message [JObj [(''type'', JStr ''text'')]]])
       = Inr (JNull, [user_message [JObj [(''type'', JStr ''text'')]]])
   \<and> field (user_message [JObj [(''type'', JStr ''text'')]]) ''content''
       = Some (JArr [JObj [(''type'', JStr ''text'')]])
   \<and> field (JObj [(''type'', JStr ''text'')]) ''type'' = Some (JStr ''text'')
   \<and> field (JObj [(''type'', JStr ''text'')]) ''text'' = None
   \<and> pipe (stub_lib [] [] (Inl (Timeout []))) stub_valves
         (request_body [user_message [JObj [(''type'', JStr ''text'')]]])
       = (Raised (KeyError ''text''), [])"
  using text_item_failure_escapes [where V = stub_valves
      and body = "request_body [user_message [JObj [(''type'', JStr ''text'')]]]"
      and raw = "JArr [user_message [JObj [(''type'', JStr ''text'')]]]"
      and L = "stub_lib [] [] (Inl (Timeout []))" and system_message = JNull
      and message = "user_message [JObj [(''type'', JStr ''text'')]]" and rest = "[]"
      and item = "JObj [(''type'', JStr ''text'')]" and items = "[]"]
  by (simp add: stub_valves_def request_body_def user_message_def stub_lib_def stub_pop_def
      is_system_def field_def)

text \<open>What \<open>process_image\<close> can return: one of the two image blocks.\<close>

lemma process_inline_result:
  assumes "process_inline L url = Inr b"
  shows "CHR '','' \<in> set url \<and> (\<exists>mt. b = base64_block mt (tl (dropWhile (\<lambda>c. c \<noteq> CHR '','') url)))"
proof (cases "CHR '','' \<in> set url")
  case True
  with assms show ?thesis
    by (auto simp: process_inline_def split_once_def split: sum.splits if_splits)
next
  case False
  with assms show ?thesis
    by (simp add: process_inline_def split_once_def)
qed

lemma process_remote_result: "process_remote L url = Inr b \<Longrightarrow> b = url_block url"
  by (auto simp: process_remote_def split: sum.splits if_splits)

lemma process_image_result:
  assumes "process_image L item = Inr b"
  shows "(\<exists>mt d. b = base64_block mt d \<and> data_uri_payload item = Some d)
         \<or> (\<exists>u. b = url_block u \<and> data_uri_payload item = None)"
proof -
  from assms obtain kvs where item: "item = JObj kvs"
    by (cases item) (auto simp: process_image_def)
  with assms obtain iu where iu: "map_of kvs ''image_url'' = Some iu"
    by (cases "map_of kvs ''image_url''") (auto simp: process_image_def)
  with assms item obtain us where us: "iu = JObj us"
    by (cases iu) (auto simp: process_image_def)
  with assms item iu obtain v where v: "map_of us ''url'' = Some v"
    by (cases "map_of us ''url''") (auto simp: process_image_def)
  with assms item iu us obtain url where url: "v = JStr url"
    by (cases v) (auto simp: process_image_def)
  have f: "field item ''image_url'' = Some iu" "field iu ''url'' = Some (JStr url)"
    using item iu us v url by (simp_all add: field_def)
  show ?thesis
  proof (cases "prefix ''data:image'' url")
    case True
    then have "process_inline L url = Inr b"
      using assms item iu us v url by (simp add: process_image_def)
    from process_inline_result [OF this] True f show ?thesis
      by (auto simp: data_uri_payload_def)
  next
    case False
    then have "process_remote L url = Inr b"
      using assms item iu us v url by (simp add: process_image_def)
    from process_remote_result [OF this] False f show ?thesis
      by (auto simp: data_uri_payload_def)
  qed
qed

lemma forwarded_text_block: "forwarded_block (text_block t)"
  by (simp add: forwarded_block_def carries_text_def is_image_block_def text_block_def field_def)

lemma accepted_text_block: "accepted_block (text_block (JStr t))"
  by (simp add: accepted_block_def is_text_block_def is_image_block_def text_block_def field_def
      is_string_def)

lemma accepted_base64_block: "accepted_block (base64_block mt d)"
  by (simp add: accepted_block_def is_text_block_def is_image_block_def base64_block_def
      field_def is_string_def)

lemma accepted_url_block: "accepted_block (url_block u)"
  by (simp add: accepted_block_def is_text_block_def is_image_block_def url_block_def
      field_def is_string_def)

lemma accepted_process_image: "process_image L item = Inr b \<Longrightarrow> accepted_block b"
  using process_image_result [of L item b]
  by (auto simp: accepted_base64_block accepted_url_block)

lemma accepted_forwarded: "accepted_block b \<Longrightarrow> forwarded_block b"
  by (auto simp: accepted_block_def forwarded_block_def is_text_block_def carries_text_def
      is_image_block_def is_string_def split: option.splits)

lemma item_blocks_text:
  "field item ''type'' = Some (JStr ''text'') \<Longrightarrow>
   item_blocks L item = (case field item ''text'' of Some t \<Rightarrow> [text_block t] | None \<Rightarrow> [])"
  by (simp add: item_blocks_def text_block_def split: option.splits)

lemma item_blocks_image:
  "field item ''type'' = Some (JStr ''image_url'') \<Longrightarrow>
   item_blocks L item = (case process_image L item of Inr b \<Rightarrow> [b] | Inl e \<Rightarrow> [])"
  by (simp add: item_blocks_def)

lemma item_blocks_other:
  "field item ''type'' \<noteq> Some (JStr ''text'') \<Longrightarrow> field item ''type'' \<noteq> Some (JStr ''image_url'') \<Longrightarrow>
   item_blocks L item = []"
  by (simp add: item_blocks_def)

lemma forwarded_item_blocks:
  assumes "b \<in> set (item_blocks L item)"
  shows "forwarded_block b \<and> (item_text_ok item \<longrightarrow> accepted_block b)"
proof (cases "field item ''type'' = Some (JStr ''text'')")
  case True
  show ?thesis
  proof (cases "field item ''text''")
    case None
    with assms True show ?thesis by (simp add: item_blocks_text)
  next
    case (Some t)
    with assms True have b: "b = text_block t"
      by (simp add: item_blocks_text)
    have "accepted_block b" if "item_text_ok item"
    proof -
      from that True Some obtain s where "t = JStr s"
        by (cases t) (auto simp: item_text_ok_def is_string_def)
      with b show ?thesis by (simp add: accepted_text_block)
    qed
    with b show ?thesis by (simp add: forwarded_text_block)
  qed
next
  case False
  show ?thesis
  proof (cases "field item ''type'' = Some (JStr ''image_url'')")
    case True
    with assms obtain img where "process_image L item = Inr img" "b = img"
      by (cases "process_image L item") (auto simp: item_blocks_image)
    then have "accepted_block b"
      by (simp add: accepted_process_image)
    then show ?thesis by (simp add: accepted_forwarded)
  next
    case other: False
    with False assms show ?thesis
      by (simp add: item_blocks_other)
  qed
qed

lemma message_blocks_list:
  "field m ''content'' = Some (JArr items) \<Longrightarrow>
   message_blocks L m = concat (map (item_blocks L) items)"
  by (simp add: message_blocks_def)

lemma message_blocks_plain:
  assumes "\<forall>items. field m ''content'' \<noteq> Some (JArr items)"
  shows "message_blocks L m
         = [text_block (case field m ''content'' of Some c \<Rightarrow> c | None \<Rightarrow> JStr [])]"
proof (cases "field m ''content''")
  case None
  then show ?thesis by (simp add: message_blocks_def text_block_def)
next
  case (Some c)
  with assms show ?thesis by (cases c) (auto simp: message_blocks_def text_block_def)
qed

lemma forwarded_message_blocks:
  assumes "b \<in> set (message_blocks L m)"
  shows "forwarded_block b \<and> (message_text_ok m \<longrightarrow> accepted_block b)"
proof (cases "\<exists>items. field m ''content'' = Some (JArr items)")
  case True
  then obtain items where c: "field m ''content'' = Some (JArr items)"
    by blast
  with assms obtain item where item: "item \<in> set items" "b \<in> set (item_blocks L item)"
    by (auto simp: message_blocks_list)
  have "item_text_ok item" if "message_text_ok m"
    using that c item(1) by (simp add: message_text_ok_def list_all_iff)
  with forwarded_item_blocks [OF item(2)] show ?thesis by blast
next
  case False
  then have plain: "\<forall>items. field m ''content'' \<noteq> Some (JArr items)"
    by blast
  with assms have b: "b = text_block (case field m ''content'' of Some c \<Rightarrow> c | None \<Rightarrow> JStr [])"
    by (simp add: message_blocks_plain)
  have "accepted_block b" if "message_text_ok m"
  proof (cases "field m ''content''")
    case None
    with b show ?thesis by (simp add: accepted_text_block)
  next
    case (Some c)
    with that plain obtain s where "c = JStr s"
      by (cases c) (auto simp: message_text_ok_def is_string_def)
    with b Some show ?thesis by (simp add: accepted_text_block)
  qed
  with b show ?thesis by (simp add: forwarded_text_block)
qed

lemma track_image_failed: "process_image L item = Inl e \<Longrightarrow> track_image L item st = Inl e"
  by (simp add: track_image_def)

lemma track_image_base64:
  "process_image L item = Inr (base64_block mt d) \<Longrightarrow>
   track_image L item st
   = (if snd st + estimated_size d > of_int MAX_TOTAL_IMAGE_SIZE
      then Inl (total_too_large L (snd st + estimated_size d))
      else Inr (fst st @ [base64_block mt d], snd st + estimated_size d))"
  by (simp add: track_image_def base64_block_def Let_def estimated_size_def)

lemma track_image_url:
  "process_image L item = Inr (url_block u) \<Longrightarrow>
   track_image L item st = Inr (fst st @ [url_block u], snd st)"
  by (simp add: track_image_def url_block_def)

lemma item_size_not_image:
  "field item ''type'' \<noteq> Some (JStr ''image_url'') \<Longrightarrow> item_size item = 0"
  by (simp add: item_size_def inline_payload_def)

lemma item_size_image:
  "field item ''type'' = Some (JStr ''image_url'') \<Longrightarrow>
   item_size item
   = (case data_uri_payload item of Some d \<Rightarrow> estimated_size d | None \<Rightarrow> 0)"
  by (simp add: item_size_def inline_payload_def)

lemma item_size_nonneg: "0 \<le> item_size item"
  by (simp add: item_size_def estimated_size_def split: option.splits)

text \<open>What a round of the loop over the items does when the image item passes validation.\<close>

lemma process_item_image:
  assumes ty: "field item ''type'' = Some (JStr ''image_url'')"
    and img: "process_image L item = Inr img"
  shows "process_item L item st
         = (if data_uri_payload item \<noteq> None
              \<and> snd st + item_size item > of_int MAX_TOTAL_IMAGE_SIZE
            then Ret (failed_image L (total_too_large L (snd st + item_size item)))
            else Next (fst st @ item_blocks L item, snd st + item_size item))"
proof -
  from ty obtain kvs where item: "item = JObj kvs" "map_of kvs ''type'' = Some (JStr ''image_url'')"
    by (cases item) (auto simp: field_def)
  have step: "process_item L item st
              = (case track_image L item st of Inl e \<Rightarrow> Ret (failed_image L e) | Inr st' \<Rightarrow> Next st')"
    using item by (simp add: process_item_def)
  have blocks: "item_blocks L item = [img]"
    using ty img by (simp add: item_blocks_image)
  from process_image_result [OF img] show ?thesis
  proof
    assume "\<exists>mt d. img = base64_block mt d \<and> data_uri_payload item = Some d"
    then obtain mt d where d: "img = base64_block mt d" "data_uri_payload item = Some d"
      by blast
    then have "item_size item = estimated_size d"
      using ty by (simp add: item_size_image)
    then show ?thesis
      using step blocks d track_image_base64 [of L item mt d st] img by (simp cong: if_cong)
  next
    assume "\<exists>u. img = url_block u \<and> data_uri_payload item = None"
    then obtain u where u: "img = url_block u" "data_uri_payload item = None"
      by blast
    then have "item_size item = 0"
      using ty by (simp add: item_size_image)
    then show ?thesis
      using step blocks u track_image_url [of L item u st] img by (simp cong: if_cong)
  qed
qed

lemma process_item_Next:
  assumes "process_item L item st = Next st'"
  shows "fst st' = fst st @ item_blocks L item \<and> snd st' = snd st + item_size item
         \<and> (snd st \<le> of_int MAX_TOTAL_IMAGE_SIZE \<longrightarrow> snd st' \<le> of_int MAX_TOTAL_IMAGE_SIZE)"
proof -
  from assms obtain kvs where item: "item = JObj kvs"
    by (cases item) (auto simp: process_item_def)
  with assms obtain ty where ty: "map_of kvs ''type'' = Some ty"
    by (cases "map_of kvs ''type''") (auto simp: process_item_def)
  then have fty: "field item ''type'' = Some ty"
    using item by (simp add: field_def)
  show ?thesis
  proof (cases "ty = JStr ''text''")
    case True
    with assms item ty obtain t where t: "map_of kvs ''text'' = Some t"
      by (cases "map_of kvs ''text''") (auto simp: process_item_def)
    then have "field item ''text'' = Some t"
      using item by (simp add: field_def)
    then have "item_blocks L item = [text_block t]"
      using fty True by (simp add: item_blocks_text)
    moreover have "item_size item = 0"
      using fty True by (simp add: item_size_not_image)
    moreover have "st' = (fst st @ [text_block t], snd st)"
      using assms item ty True t by (simp add: process_item_def)
    ultimately show ?thesis by simp
  next
    case False
    show ?thesis
    proof (cases "ty = JStr ''image_url''")
      case True
      have step: "process_item L item st
              = (case track_image L item st of Inl e \<Rightarrow> Ret (failed_image L e) | Inr st' \<Rightarrow> Next st')"
        using item ty True by (simp add: process_item_def)
      with assms obtain img where img: "process_image L item = Inr img"
        by (cases "process_image L item") (auto simp: track_image_failed)
      from assms process_item_image [OF _ img, of st] fty True show ?thesis
        by (auto simp: item_size_image split: if_splits)
    next
      case other: False
      have "item_blocks L item = []"
        using fty False other by (simp add: item_blocks_other)
      moreover have "item_size item = 0"
        using fty other by (simp add: item_size_not_image)
      moreover have "st' = st"
        using assms item ty False other by (simp add: process_item_def)
      ultimately show ?thesis by simp
    qed
  qed
qed

lemma process_items_Next:
  "process_items L items st = Next st' \<Longrightarrow>
   fst st' = fst st @ concat (map (item_blocks L) items)
   \<and> snd st' = snd st + sum_list (map item_size items)
   \<and> (snd st \<le> of_int MAX_TOTAL_IMAGE_SIZE \<longrightarrow> snd st' \<le> of_int MAX_TOTAL_IMAGE_SIZE)"
proof (induction items arbitrary: st)
  case Nil
  then show ?case by simp
next
  case (Cons item items)
  then obtain st1 where one: "process_item L item st = Next st1"
    and more: "process_items L items st1 = Next st'"
    by (cases "process_item L item st") auto
  from process_item_Next [OF one] Cons.IH [OF more] show ?case
    by (auto simp: add.assoc)
qed


lemma process_message_Next:
  assumes "process_message L m st = Next st'"
  shows "fst st' = fst st @ [normalized L m]
         \<and> snd st' = snd st + sum_list (map item_size (message_items m))
         \<and> (snd st \<le> of_int MAX_TOTAL_IMAGE_SIZE \<longrightarrow> snd st' \<le> of_int MAX_TOTAL_IMAGE_SIZE)"
proof -
  from assms obtain kvs where m: "m = JObj kvs"
    by (cases m) (auto simp: process_message_def)
  show ?thesis
  proof (cases "\<exists>items. map_of kvs ''content'' = Some (JArr items)")
    case True
    then obtain items where c: "map_of kvs ''content'' = Some (JArr items)"
      by blast
    with assms m obtain pc t where items: "process_items L items ([], snd st) = Next (pc, t)"
      by (cases "process_items L items ([], snd st)") (auto simp: process_message_def)
    with assms m c obtain role where role: "map_of kvs ''role'' = Some role"
      by (cases "map_of kvs ''role''") (auto simp: process_message_def)
    have st': "st' = (fst st @ [JObj [(''role'', role), (''content'', JArr pc)]], t)"
      using assms m c items role by (simp add: process_message_def)
    have "normalized L m = JObj [(''role'', role), (''content'', JArr (concat (map (item_blocks L) items)))]"
      using m c role by (simp add: normalized_def message_blocks_def field_def)
    moreover have "message_items m = items"
      using m c by (simp add: message_items_def field_def)
    ultimately show ?thesis
      using process_items_Next [OF items] st' by auto
  next
    case False
    define c where "c = (case map_of kvs ''content'' of None \<Rightarrow> JStr [] | Some v \<Rightarrow> v)"
    have not_list: "(case map_of kvs ''content'' of None \<Rightarrow> JNull | Some v \<Rightarrow> v) \<noteq> JArr items" for items
      using False by (cases "map_of kvs ''content''") auto
    have step: "process_message L m st
          = (case py_getitem m ''role'' of
               Inl e \<Rightarrow> Exc e
             | Inr role \<Rightarrow>
                 Next (fst st @ [JObj [(''role'', role), (''content'', JArr [text_block c])]], snd st))"
      using m not_list
      by (cases "case map_of kvs ''content'' of None \<Rightarrow> JNull | Some v \<Rightarrow> v")
        (auto simp: process_message_def c_def split: option.splits)
    with assms m obtain role where role: "map_of kvs ''role'' = Some role"
      by (cases "map_of kvs ''role''") auto
    have st': "st' = (fst st @ [JObj [(''role'', role), (''content'', JArr [text_block c])]], snd st)"
      using assms step m role by simp
    have "message_blocks L m = [text_block c]"
      using m False
      by (cases "map_of kvs ''content''"; cases "the (map_of kvs ''content'')")
        (auto simp: message_blocks_def field_def c_def text_block_def)
    then have "normalized L m = JObj [(''role'', role), (''content'', JArr [text_block c])]"
      using m role by (simp add: normalized_def field_def)
    moreover have "message_items m = []"
      using m False
      by (cases "map_of kvs ''content''"; cases "the (map_of kvs ''content'')")
        (auto simp: message_items_def field_def)
    ultimately show ?thesis
      using st' by simp
  qed
qed

lemma batch_size_Cons:
  "batch_size (m # msgs) = sum_list (map item_size (message_items m)) + batch_size msgs"
  by (simp add: batch_size_def)

lemma process_messages_Next:
  "process_messages L msgs st = Next st' \<Longrightarrow>
   fst st' = fst st @ map (normalized L) msgs
   \<and> snd st' = snd st + batch_size msgs
   \<and> (snd st \<le> of_int MAX_TOTAL_IMAGE_SIZE \<longrightarrow> snd st' \<le> of_int MAX_TOTAL_IMAGE_SIZE)"
proof (induction msgs arbitrary: st)
  case Nil
  then show ?case by (simp add: batch_size_def)
next
  case (Cons m msgs)
  then obtain st1 where one: "process_message L m st = Next st1"
    and more: "process_messages L msgs st1 = Next st'"
    by (cases "process_message L m st") auto
  from process_message_Next [OF one] Cons.IH [OF more] show ?case
    by (auto simp: add.assoc batch_size_Cons)
qed

text \<open>What \<open>pipe\<close> posts, if it posts anything.\<close>

lemma pipe_posts:
  assumes "map_of body ''messages'' = Some raw"
    and "pop_system_message L raw = Inr (system_message, msgs)"
    and "p \<in> set (snd (pipe L V body))"
  shows "messages p = map (normalized L) msgs
         \<and> batch_size msgs \<le> of_int MAX_TOTAL_IMAGE_SIZE
         \<and> snd (pipe L V body) = [p]"
proof -
  from assms(3) have key: "ANTHROPIC_API_KEY V \<noteq> []"
    by (auto simp: pipe_def)
  from assms key obtain pm t where norm: "process_messages L msgs ([], 0) = Next (pm, t)"
    by (cases "process_messages L msgs ([], 0)") (auto simp: pipe_def)
  from assms key norm obtain model_id where mid: "resolve_model body = Inr model_id"
    by (cases "resolve_model body") (auto simp: pipe_def)
  have p: "p = build_payload L V body model_id pm system_message"
    and posts: "snd (pipe L V body) = [p]"
    using assms key norm mid by (auto simp: pipe_def Let_def)
  from process_messages_Next [OF norm] have "pm = map (normalized L) msgs"
    and "batch_size msgs \<le> of_int MAX_TOTAL_IMAGE_SIZE"
    by (simp_all add: MAX_TOTAL_IMAGE_SIZE_def)
  then show ?thesis using p posts by (simp add: build_payload_def)
qed


lemma process_item_ok:
  assumes ok: "item_ok L item" and inv: "snd st \<le> of_int MAX_TOTAL_IMAGE_SIZE"
  shows "process_item L item st
         = (if snd st + item_size item > of_int MAX_TOTAL_IMAGE_SIZE
            then Ret (failed_image L (total_too_large L (snd st + item_size item)))
            else Next (fst st @ item_blocks L item, snd st + item_size item))"
proof -
  from ok obtain ty where fty: "field item ''type'' = Some ty"
    by (cases "field item ''type''") (auto simp: item_ok_def)
  then obtain kvs where item: "item = JObj kvs" "map_of kvs ''type'' = Some ty"
    by (cases item) (auto simp: field_def)
  show ?thesis
  proof (cases "ty = JStr ''text''")
    case True
    with ok fty obtain t where t: "field item ''text'' = Some t"
      by (cases "field item ''text''") (auto simp: item_ok_def)
    then have "map_of kvs ''text'' = Some t"
      using item by (simp add: field_def)
    then have "process_item L item st = Next (fst st @ [text_block t], snd st)"
      using item True by (simp add: process_item_def)
    moreover have "item_blocks L item = [text_block t]"
      using fty True t by (simp add: item_blocks_text)
    moreover have "item_size item = 0"
      using fty True by (simp add: item_size_not_image)
    ultimately show ?thesis using inv by simp
  next
    case False
    show ?thesis
    proof (cases "ty = JStr ''image_url''")
      case True
      with ok fty obtain img where img: "process_image L item = Inr img"
        by (cases "process_image L item") (auto simp: item_ok_def)
      have "data_uri_payload item = None \<Longrightarrow> item_size item = 0"
        using fty True by (simp add: item_size_image)
      then show ?thesis
        using process_item_image [OF _ img, of st] fty True inv by auto
    next
      case other: False
      have "process_item L item st = Next st"
        using item False other by (simp add: process_item_def)
      moreover have "item_blocks L item = []"
        using fty False other by (simp add: item_blocks_other)
      moreover have "item_size item = 0"
        using fty other by (simp add: item_size_not_image)
      ultimately show ?thesis using inv by simp
    qed
  qed
qed

lemma sum_item_size_nonneg: "0 \<le> sum_list (map item_size items)"
  by (induction items) (auto simp: item_size_nonneg)

lemma process_items_ok:
  assumes "list_all (item_ok L) items" "snd st \<le> of_int MAX_TOTAL_IMAGE_SIZE"
  shows "(snd st + sum_list (map item_size items) \<le> of_int MAX_TOTAL_IMAGE_SIZE \<longrightarrow>
            process_items L items st
            = Next (fst st @ concat (map (item_blocks L) items),
                    snd st + sum_list (map item_size items)))
         \<and> (snd st + sum_list (map item_size items) > of_int MAX_TOTAL_IMAGE_SIZE \<longrightarrow>
            (\<exists>t. t > of_int MAX_TOTAL_IMAGE_SIZE
                 \<and> process_items L items st = Ret (failed_image L (total_too_large L t))))"
  using assms
proof (induction items arbitrary: st)
  case Nil
  then show ?case by simp
next
  case (Cons item items)
  then have ok: "item_ok L item" and oks: "list_all (item_ok L) items"
    by simp_all
  note step = process_item_ok [OF ok Cons.prems(2)]
  show ?case
  proof (cases "snd st + item_size item > of_int MAX_TOTAL_IMAGE_SIZE")
    case True
    moreover have "snd st + item_size item \<le> snd st + sum_list (map item_size (item # items))"
      using sum_item_size_nonneg [of items] by simp
    ultimately show ?thesis
      using step by auto
  next
    case False
    then have inv: "snd (fst st @ item_blocks L item, snd st + item_size item)
                    \<le> of_int MAX_TOTAL_IMAGE_SIZE"
      by simp
    from False step Cons.IH [OF oks inv] show ?thesis
      by (simp add: add.assoc)
  qed
qed

lemma process_message_ok:
  assumes ok: "message_ok L m" and inv: "snd st \<le> of_int MAX_TOTAL_IMAGE_SIZE"
  shows "(snd st + sum_list (map item_size (message_items m)) \<le> of_int MAX_TOTAL_IMAGE_SIZE \<longrightarrow>
            process_message L m st
            = Next (fst st @ [normalized L m], snd st + sum_list (map item_size (message_items m))))
         \<and> (snd st + sum_list (map item_size (message_items m)) > of_int MAX_TOTAL_IMAGE_SIZE \<longrightarrow>
            (\<exists>t. t > of_int MAX_TOTAL_IMAGE_SIZE
                 \<and> process_message L m st = Ret (failed_image L (total_too_large L t))))"
proof -
  from ok obtain kvs role where m: "m = JObj kvs" and role: "map_of kvs ''role'' = Some role"
    by (cases m) (auto simp: message_ok_def is_object_def field_def)
  show ?thesis
  proof (cases "\<exists>items. map_of kvs ''content'' = Some (JArr items)")
    case True
    then obtain items where c: "map_of kvs ''content'' = Some (JArr items)"
      by blast
    have mi: "message_items m = items"
      using m c by (simp add: message_items_def field_def)
    with ok have oks: "list_all (item_ok L) items"
      by (simp add: message_ok_def)
    have inv0: "snd ([] :: json list, snd st) \<le> of_int MAX_TOTAL_IMAGE_SIZE"
      using inv by simp
    have n: "normalized L m = JObj [(''role'', role), (''content'', JArr (concat (map (item_blocks L) items)))]"
      using m c role by (simp add: normalized_def message_blocks_def field_def)
    have step: "process_message L m st
          = (case process_items L items ([], snd st) of
               Next (pc, t) \<Rightarrow> Next (fst st @ [JObj [(''role'', role), (''content'', JArr pc)]], t)
             | Ret v \<Rightarrow> Ret v
             | Exc e \<Rightarrow> Exc e)"
      using m c role by (simp add: process_message_def split: flow.splits prod.splits)
    from process_items_ok [OF oks inv0] show ?thesis
      unfolding mi step n by auto
  next
    case False
    have "\<exists>st'. process_message L m st = Next st'"
      using m role False
      by (cases "map_of kvs ''content''"; cases "the (map_of kvs ''content'')")
        (auto simp: process_message_def)
    then obtain st' where st': "process_message L m st = Next st'"
      by blast
    have "message_items m = []"
      using m False
      by (cases "map_of kvs ''content''"; cases "the (map_of kvs ''content'')")
        (auto simp: message_items_def field_def)
    with process_message_Next [OF st'] st' inv show ?thesis
      by (cases st') auto
  qed
qed

lemma batch_size_nonneg: "0 \<le> batch_size msgs"
  unfolding batch_size_def by (rule sum_item_size_nonneg)

lemma process_messages_ok:
  assumes "list_all (message_ok L) msgs" "snd st \<le> of_int MAX_TOTAL_IMAGE_SIZE"
  shows "(snd st + batch_size msgs \<le> of_int MAX_TOTAL_IMAGE_SIZE \<longrightarrow>
            process_messages L msgs st
            = Next (fst st @ map (normalized L) msgs, snd st + batch_size msgs))
         \<and> (snd st + batch_size msgs > of_int MAX_TOTAL_IMAGE_SIZE \<longrightarrow>
            (\<exists>t. t > of_int MAX_TOTAL_IMAGE_SIZE
                 \<and> process_messages L msgs st = Ret (failed_image L (total_too_large L t))))"
  using assms
proof (induction msgs arbitrary: st)
  case Nil
  then show ?case by (simp add: batch_size_def)
next
  case (Cons m msgs)
  then have ok: "message_ok L m" and oks: "list_all (message_ok L) msgs"
    by simp_all
  note step = process_message_ok [OF ok Cons.prems(2)]
  show ?case
  proof (cases "snd st + sum_list (map item_size (message_items m)) > of_int MAX_TOTAL_IMAGE_SIZE")
    case True
    moreover have "snd st + sum_list (map item_size (message_items m)) \<le> snd st + batch_size (m # msgs)"
      using batch_size_nonneg [of msgs] by (simp add: batch_size_Cons)
    ultimately show ?thesis
      using step by auto
  next
    case False
    then have inv: "snd (fst st @ [normalized L m], snd st + sum_list (map item_size (message_items m)))
                    \<le> of_int MAX_TOTAL_IMAGE_SIZE"
      by simp
    from False step Cons.IH [OF oks inv] show ?thesis
      by (simp add: add.assoc batch_size_Cons)
  qed
qed

lemma is_total_size_error_failed:
  "is_total_size_error (Return (failed_image L (total_too_large L t)))"
  by (simp add: is_total_size_error_def failed_image_def total_too_large_def)

lemma process_image_inline:
  assumes "field item ''image_url'' = Some image_url" "field image_url ''url'' = Some (JStr url)"
    and "prefix ''data:image'' url"
  shows "process_image L item = process_inline L url"
proof -
  from assms(1) obtain kvs where item: "item = JObj kvs" "map_of kvs ''image_url'' = Some image_url"
    by (cases item) (auto simp: field_def)
  from assms(2) obtain us where iu: "image_url = JObj us" "map_of us ''url'' = Some (JStr url)"
    by (cases image_url) (auto simp: field_def)
  show ?thesis using item iu assms(3) by (simp add: process_image_def)
qed

text \<open>The sample image item with a PNG payload of the given base64 text.\<close>

lemma process_image_png:
  "process_image L (image_item (png_uri b64))
   = (if estimated_size b64 > of_int MAX_IMAGE_SIZE
      then Inl (image_too_large L (estimated_size b64))
      else Inr (base64_block ''image/png'' b64))"
proof -
  have "process_image L (image_item (png_uri b64)) = process_inline L (png_uri b64)"
    by (rule process_image_inline [where image_url = "JObj [(''url'', JStr (png_uri b64))]"])
      (simp_all add: image_item_def field_def png_uri_def)
  moreover have "process_inline L (''data:'' @ ''image/png'' @ '';base64'' @ '','' @ b64)
        = (if estimated_size b64 > of_int MAX_IMAGE_SIZE
           then Inl (image_too_large L (estimated_size b64))
           else Inr (base64_block ''image/png'' b64))"
    by (rule process_inline_data_uri) simp_all
  ultimately show ?thesis by (simp add: png_uri_def)
qed

lemma item_size_png: "item_size (image_item (png_uri b64)) = estimated_size b64"
  by (simp add: item_size_def inline_payload_def data_uri_payload_def image_item_def field_def
      png_uri_def)

text \<open>
  C2, as amended.  Cumulative inline-image limit, with atomicity.  Take the batch that
  \<open>pop_system_message\<close> hands to the loop, and let the estimated sizes
  (\<open>len(base64) * 3 / 4\<close>) of its inline images sum to more than 100 MiB.  Then no
  payload is built or posted, whatever else the batch holds.  If moreover the API key
  is configured and the batch is well formed (every item can be processed on its own,
  so every inline image is at most 5 MiB), \<open>pipe\<close> returns the single text
  "Error: Failed to process image: Total image size exceeds 100MB limit: ...", raised
  at the first image that takes the running total above 100 MiB.
\<close>

theorem cumulative_image_limit:
  assumes "map_of body ''messages'' = Some raw"
    and "pop_system_message L raw = Inr (system_message, msgs)"
    and "batch_size msgs > 100 * 1024 * 1024"
  shows "snd (pipe L V body) = []
         \<and> (ANTHROPIC_API_KEY V \<noteq> [] \<and> list_all (message_ok L) msgs \<longrightarrow>
              (\<exists>t. t > 100 * 1024 * 1024
                   \<and> pipe L V body = (Return (failed_image L (total_too_large L t)), []))
              \<and> is_total_size_error (fst (pipe L V body)))"
proof -
  have big: "batch_size msgs > of_int MAX_TOTAL_IMAGE_SIZE"
    using assms(3) by (simp add: MAX_TOTAL_IMAGE_SIZE_def)
  have "snd (pipe L V body) = []"
  proof (rule ccontr)
    assume "snd (pipe L V body) \<noteq> []"
    then obtain p where "p \<in> set (snd (pipe L V body))"
      by (cases "snd (pipe L V body)") auto
    from pipe_posts [OF assms(1,2) this] big show False
      by simp
  qed
  moreover have "(\<exists>t. t > 100 * 1024 * 1024
                   \<and> pipe L V body = (Return (failed_image L (total_too_large L t)), []))
              \<and> is_total_size_error (fst (pipe L V body))"
    if key: "ANTHROPIC_API_KEY V \<noteq> []" and ok: "list_all (message_ok L) msgs"
  proof -
    have "snd ([] :: json list, 0 :: rat) \<le> of_int MAX_TOTAL_IMAGE_SIZE"
      by (simp add: MAX_TOTAL_IMAGE_SIZE_def)
    from process_messages_ok [OF ok this] big obtain t
      where t: "t > of_int MAX_TOTAL_IMAGE_SIZE"
        and r: "process_messages L msgs ([], 0) = Ret (failed_image L (total_too_large L t))"
      by auto
    have "pipe L V body = (Return (failed_image L (total_too_large L t)), [])"
      using key assms(1,2) r by (simp add: pipe_def)
    then show ?thesis
      using t by (auto simp: is_total_size_error_failed MAX_TOTAL_IMAGE_SIZE_def)
  qed
  ultimately show ?thesis by blast
qed

text \<open>
  The claim as stated, for every batch whose inline images sum to more than 100 MiB,
  fails when one image alone is too large: the per-image check of \<open>process_image\<close>
  comes first, and the error returned is the per-image one, not the total-size one.
\<close>

theorem cumulative_image_limit_counterexample:
  "batch_size [user_message [image_item (png_uri (replicate 140000000 CHR ''A''))]]
     > 100 * 1024 * 1024
   \<and> pipe (stub_lib [] [] (Inl (Timeout []))) stub_valves
         (request_body [user_message [image_item (png_uri (replicate 140000000 CHR ''A''))]])
       = (Return (failed_image (stub_lib [] [] (Inl (Timeout [])))
                    (image_too_large (stub_lib [] [] (Inl (Timeout []))) 105000000)), [])
   \<and> \<not> is_total_size_error
         (fst (pipe (stub_lib [] [] (Inl (Timeout []))) stub_valves
                (request_body [user_message [image_item (png_uri (replicate 140000000 CHR ''A''))]])))"
proof -
  have size: "estimated_size (replicate 140000000 CHR ''A'') = 105000000"
    by (simp add: estimated_size_def)
  have img: "process_image L (image_item (png_uri (replicate 140000000 CHR ''A'')))
             = Inl (image_too_large L 105000000)" for L
    by (simp add: process_image_png size MAX_IMAGE_SIZE_def)
  have item: "process_item L (image_item (png_uri (replicate 140000000 CHR ''A''))) st
             = Ret (failed_image L (image_too_large L 105000000))" for L st
    by (rule process_item_image_failed [OF _ img]) (simp add: image_item_def field_def)
  have msg: "process_message L
               (user_message [image_item (png_uri (replicate 140000000 CHR ''A''))]) st
             = Ret (failed_image L (image_too_large L 105000000))" for L st
    by (simp add: process_message_def user_message_def item)
  have p: "pipe (stub_lib [] [] (Inl (Timeout []))) stub_valves
         (request_body [user_message [image_item (png_uri (replicate 140000000 CHR ''A''))]])
       = (Return (failed_image (stub_lib [] [] (Inl (Timeout [])))
                    (image_too_large (stub_lib [] [] (Inl (Timeout []))) 105000000)), [])"
    by (simp add: pipe_def stub_valves_def request_body_def stub_lib_def stub_pop_def
        is_system_def msg) (simp add: user_message_def)
  have b: "batch_size [user_message [image_item (png_uri (replicate 140000000 CHR ''A''))]]
           = 105000000"
    by (simp add: batch_size_def message_items_def user_message_def field_def item_size_png size)
  show ?thesis
    unfolding p b
    by (simp add: is_total_size_error_def failed_image_def image_too_large_def)
qed


theorem cumulative_image_limit_witness:
  "map_of (request_body [user_message (replicate 21 (image_item (png_uri (replicate 6990506 CHR ''A''))))]) ''messages'' = Some (JArr [user_message (replicate 21 (image_item (png_uri (replicate 6990506 CHR ''A''))))])
   \<and> pop_system_message (stub_lib [] [] (Inl (Timeout []))) (JArr [user_message (replicate 21 (image_item (png_uri (replicate 6990506 CHR ''A''))))]) = Inr (JNull, [user_message (replicate 21 (image_item (png_uri (replicate 6990506 CHR ''A''))))])
   \<and> batch_size [user_message (replicate 21 (image_item (png_uri (replicate 6990506 CHR ''A''))))] > 100 * 1024 * 1024
   \<and> ANTHROPIC_API_KEY stub_valves \<noteq> []
   \<and> list_all (message_ok (stub_lib [] [] (Inl (Timeout [])))) [user_message (replicate 21 (image_item (png_uri (replicate 6990506 CHR ''A''))))]
   \<and> snd (pipe (stub_lib [] [] (Inl (Timeout []))) stub_valves (request_body [user_message (replicate 21 (image_item (png_uri (replicate 6990506 CHR ''A''))))])) = []
   \<and> is_total_size_error (fst (pipe (stub_lib [] [] (Inl (Timeout []))) stub_valves (request_body [user_message (replicate 21 (image_item (png_uri (replicate 6990506 CHR ''A''))))])))"
proof -
  have size: "estimated_size (replicate 6990506 CHR ''A'') = 10485759 / 2"
    by (simp add: estimated_size_def)
  have h1: "map_of (request_body [user_message (replicate 21 (image_item (png_uri (replicate 6990506 CHR ''A''))))]) ''messages'' = Some (JArr [user_message (replicate 21 (image_item (png_uri (replicate 6990506 CHR ''A''))))])"
    by (simp add: request_body_def)
  have h2: "pop_system_message (stub_lib [] [] (Inl (Timeout []))) (JArr [user_message (replicate 21 (image_item (png_uri (replicate 6990506 CHR ''A''))))]) = Inr (JNull, [user_message (replicate 21 (image_item (png_uri (replicate 6990506 CHR ''A''))))])"
    by (simp add: stub_lib_def stub_pop_def is_system_def user_message_def)
  have h3: "batch_size [user_message (replicate 21 (image_item (png_uri (replicate 6990506 CHR ''A''))))] > 100 * 1024 * 1024"
    by (simp add: batch_size_def message_items_def user_message_def field_def item_size_png size
        sum_list_replicate)
  have h4: "ANTHROPIC_API_KEY stub_valves \<noteq> []"
    by (simp add: stub_valves_def)
  have "item_ok (stub_lib [] [] (Inl (Timeout []))) (image_item (png_uri (replicate 6990506 CHR ''A'')))"
  proof -
    have "field (image_item (png_uri (replicate 6990506 CHR ''A''))) ''type'' = Some (JStr ''image_url'')"
      by (simp add: image_item_def field_def)
    moreover have "process_image (stub_lib [] [] (Inl (Timeout []))) (image_item (png_uri (replicate 6990506 CHR ''A'')))
                   = Inr (base64_block ''image/png'' (replicate 6990506 CHR ''A''))"
      by (simp add: process_image_png size MAX_IMAGE_SIZE_def)
    ultimately show ?thesis
      by (simp add: item_ok_def)
  qed
  then have h5: "list_all (message_ok (stub_lib [] [] (Inl (Timeout [])))) [user_message (replicate 21 (image_item (png_uri (replicate 6990506 CHR ''A''))))]"
    by (simp add: message_ok_def message_items_def list_all_iff user_message_def field_def
        is_object_def)
  from cumulative_image_limit [OF h1 h2 h3, of stub_valves] h1 h2 h3 h4 h5 show ?thesis
    by blast
qed

lemma normalized_content:
  "field (normalized L m) ''content'' = Some (JArr (message_blocks L m))"
  by (simp add: normalized_def field_def)

text \<open>
  C10, as amended.  Content blocks of the payload.  Whenever \<open>pipe\<close> posts a payload,
  its messages are the normalized messages of the batch, one for one, and every block
  of every message is exactly one of an image block and a block of type \<open>text\<close> that
  carries the caller's text value; the code does not look at the type of that value.
  When every text of the batch is a string (the text of each text item, and each
  unstructured content that is present), every block is exactly one of the two accepted
  variants, a text block with a string or an image block.  For a message whose content
  is a list, the posted blocks are those of its text items and image items, in order,
  and an item of any other type gives no block; a message whose content is anything but
  a list gives the single block of type \<open>text\<close> with that content (with the empty string
  if the message has no content).
\<close>

theorem payload_blocks:
  assumes "map_of body ''messages'' = Some raw"
    and "pop_system_message L raw = Inr (system_message, msgs)"
    and "p \<in> set (snd (pipe L V body))"
  shows "messages p = map (normalized L) msgs
         \<and> (\<forall>m'\<in>set (messages p). \<exists>blocks.
               field m' ''content'' = Some (JArr blocks) \<and> (\<forall>b\<in>set blocks. forwarded_block b))
         \<and> (list_all message_text_ok msgs \<longrightarrow>
               (\<forall>m'\<in>set (messages p). \<exists>blocks.
                  field m' ''content'' = Some (JArr blocks) \<and> (\<forall>b\<in>set blocks. accepted_block b)))
         \<and> (\<forall>i items. i < length msgs \<and> field (msgs ! i) ''content'' = Some (JArr items) \<longrightarrow>
               field (messages p ! i) ''content'' = Some (JArr (concat (map (item_blocks L) items)))
               \<and> (\<forall>item\<in>set items.
                     field item ''type'' \<noteq> Some (JStr ''text'')
                     \<and> field item ''type'' \<noteq> Some (JStr ''image_url'')
                     \<longrightarrow> item_blocks L item = []))
         \<and> (\<forall>i. i < length msgs \<and> (\<forall>items. field (msgs ! i) ''content'' \<noteq> Some (JArr items)) \<longrightarrow>
               field (messages p ! i) ''content''
               = Some (JArr [JObj [(''type'', JStr ''text''),
                                   (''text'', (case field (msgs ! i) ''content'' of
                                                 Some c \<Rightarrow> c
                                               | None \<Rightarrow> JStr []))]]))"
proof -
  have norm: "messages p = map (normalized L) msgs"
    using pipe_posts [OF assms] by simp
  have fwd: "\<exists>blocks. field m' ''content'' = Some (JArr blocks) \<and> (\<forall>b\<in>set blocks. forwarded_block b)"
    if "m' \<in> set (messages p)" for m'
  proof -
    from that norm obtain m where "m' = normalized L m"
      by auto
    then show ?thesis
      using normalized_content [of L m] forwarded_message_blocks [of _ L m] by blast
  qed
  have acc: "\<exists>blocks. field m' ''content'' = Some (JArr blocks) \<and> (\<forall>b\<in>set blocks. accepted_block b)"
    if "m' \<in> set (messages p)" and ok: "list_all message_text_ok msgs" for m'
  proof -
    from that norm obtain m where m: "m \<in> set msgs" "m' = normalized L m"
      by auto
    with ok have "message_text_ok m"
      by (simp add: list_all_iff)
    with m(2) show ?thesis
      using normalized_content [of L m] forwarded_message_blocks [of _ L m] by blast
  qed
  have at: "field (messages p ! i) ''content'' = Some (JArr (message_blocks L (msgs ! i)))"
    if "i < length msgs" for i
    using that norm by (simp add: normalized_content)
  have lists: "field (messages p ! i) ''content'' = Some (JArr (concat (map (item_blocks L) items)))"
    if "i < length msgs" "field (msgs ! i) ''content'' = Some (JArr items)" for i items
    using at [OF that(1)] that(2) by (simp add: message_blocks_list)
  have plain: "field (messages p ! i) ''content''
               = Some (JArr [JObj [(''type'', JStr ''text''),
                                   (''text'', (case field (msgs ! i) ''content'' of
                                                 Some c \<Rightarrow> c
                                               | None \<Rightarrow> JStr []))]])"
    if "i < length msgs" "\<forall>items. field (msgs ! i) ''content'' \<noteq> Some (JArr items)" for i
    using at [OF that(1)] message_blocks_plain [OF that(2), of L] by (simp add: text_block_def)
  from norm fwd acc lists plain show ?thesis
    by (simp add: item_blocks_other)
qed

theorem payload_blocks_witness:
  "map_of (request_body sample_messages) ''messages'' = Some (JArr sample_messages)
   \<and> pop_system_message (stub_lib [] [] (Inl (Timeout []))) (JArr sample_messages) = Inr (JNull, sample_messages)
   \<and> (build_payload (stub_lib [] [] (Inl (Timeout []))) stub_valves (request_body sample_messages) (JStr ''claude-opus-4-5'') sample_normalized JNull) \<in> set (snd (pipe (stub_lib [] [] (Inl (Timeout []))) stub_valves (request_body sample_messages)))
   \<and> messages (build_payload (stub_lib [] [] (Inl (Timeout []))) stub_valves (request_body sample_messages) (JStr ''claude-opus-4-5'') sample_normalized JNull) = sample_normalized
   \<and> map (normalized (stub_lib [] [] (Inl (Timeout [])))) sample_messages = sample_normalized
   \<and> list_all message_text_ok sample_messages
   \<and> list_all accepted_block
         [JObj [(''type'', JStr ''text''), (''text'', JStr ''hi'')],
          JObj [(''type'', JStr ''image''),
                (''source'', JObj [(''type'', JStr ''base64''),
                                   (''media_type'', JStr ''image/png''),
                                   (''data'', JStr ''iVBORw0KGgo='')])],
          JObj [(''type'', JStr ''text''), (''text'', JStr ''hello'')]]"
proof -
  have h1: "map_of (request_body sample_messages) ''messages'' = Some (JArr sample_messages)"
    by (simp add: request_body_def)
  have h2: "pop_system_message (stub_lib [] [] (Inl (Timeout []))) (JArr sample_messages) = Inr (JNull, sample_messages)"
    by (simp add: stub_lib_def stub_pop_def is_system_def sample_messages_def user_message_def)
  have i1: "process_item (stub_lib [] [] (Inl (Timeout []))) (text_item ''hi'') st = Next (fst st @ [text_block (JStr ''hi'')], snd st)"
    for st
    by (simp add: process_item_def text_item_def)
  have ty: "field (image_item (png_uri ''iVBORw0KGgo='')) ''type'' = Some (JStr ''image_url'')"
    by (simp add: image_item_def field_def)
  have img: "process_image (stub_lib [] [] (Inl (Timeout []))) (image_item (png_uri ''iVBORw0KGgo=''))
             = Inr (base64_block ''image/png'' ''iVBORw0KGgo='')"
    by (simp add: process_image_png estimated_size_def MAX_IMAGE_SIZE_def)
  have ib: "item_blocks (stub_lib [] [] (Inl (Timeout []))) (image_item (png_uri ''iVBORw0KGgo=''))
            = [base64_block ''image/png'' ''iVBORw0KGgo='']"
    using item_blocks_image [OF ty] img by simp
  have i2: "process_item (stub_lib [] [] (Inl (Timeout []))) (image_item (png_uri ''iVBORw0KGgo='')) st
            = Next (fst st @ [base64_block ''image/png'' ''iVBORw0KGgo=''], 9)"
    if "snd st = 0" for st
    using process_item_image [OF ty img, of st] that
    by (simp add: ib item_size_png estimated_size_def MAX_TOTAL_IMAGE_SIZE_def)
  have i3: "process_item (stub_lib [] [] (Inl (Timeout []))) (JObj [(''type'', JStr ''tool_use''), (''id'', JStr ''t1'')]) st = Next st"
    for st
    by (simp add: process_item_def)
  have m1: "process_message (stub_lib [] [] (Inl (Timeout [])))
              (user_message [text_item ''hi'', image_item (png_uri ''iVBORw0KGgo=''),
                             JObj [(''type'', JStr ''tool_use''), (''id'', JStr ''t1'')]]) ([], 0)
            = Next ([JObj [(''role'', JStr ''user''),
                           (''content'', JArr [text_block (JStr ''hi''),
                                               base64_block ''image/png'' ''iVBORw0KGgo=''])]], 9)"
    by (simp add: process_message_def user_message_def i1 i2 i3)
  have m2: "process_message (stub_lib [] [] (Inl (Timeout []))) (JObj [(''role'', JStr ''assistant''), (''content'', JStr ''hello'')]) st
            = Next (fst st @ [JObj [(''role'', JStr ''assistant''),
                                    (''content'', JArr [text_block (JStr ''hello'')])]], snd st)"
    for st
    by (simp add: process_message_def)
  have pm: "process_messages (stub_lib [] [] (Inl (Timeout []))) sample_messages ([], 0) = Next (sample_normalized, 9)"
    by (simp add: sample_messages_def sample_normalized_def m1 m2 text_block_def base64_block_def)
  have model: "resolve_model (request_body sample_messages) = Inr (JStr ''claude-opus-4-5'')"
    using extract_model_id_after_separator [of "''anthropic''" "''claude-opus-4-5''"]
    by (simp add: resolve_model_def request_body_def)
  have "ANTHROPIC_API_KEY stub_valves \<noteq> []"
    by (simp add: stub_valves_def)
  then have posts: "snd (pipe (stub_lib [] [] (Inl (Timeout []))) stub_valves (request_body sample_messages)) = [(build_payload (stub_lib [] [] (Inl (Timeout []))) stub_valves (request_body sample_messages) (JStr ''claude-opus-4-5'') sample_normalized JNull)]"
    by (simp add: pipe_def h1 h2 pm model Let_def)
  then have h3: "(build_payload (stub_lib [] [] (Inl (Timeout []))) stub_valves (request_body sample_messages) (JStr ''claude-opus-4-5'') sample_normalized JNull) \<in> set (snd (pipe (stub_lib [] [] (Inl (Timeout []))) stub_valves (request_body sample_messages)))"
    by simp
  have ms: "messages (build_payload (stub_lib [] [] (Inl (Timeout []))) stub_valves (request_body sample_messages) (JStr ''claude-opus-4-5'') sample_normalized JNull) = sample_normalized"
    by (simp add: build_payload_def)
  have h4: "list_all message_text_ok sample_messages"
    by (simp add: sample_messages_def message_text_ok_def item_text_ok_def user_message_def
        text_item_def image_item_def field_def is_string_def)
  have acc: "list_all accepted_block
         [JObj [(''type'', JStr ''text''), (''text'', JStr ''hi'')],
          JObj [(''type'', JStr ''image''),
                (''source'', JObj [(''type'', JStr ''base64''),
                                   (''media_type'', JStr ''image/png''),
                                   (''data'', JStr ''iVBORw0KGgo='')])],
          JObj [(''type'', JStr ''text''), (''text'', JStr ''hello'')]]"
    by (simp add: accepted_block_def is_text_block_def is_image_block_def field_def is_string_def)
  have "messages (build_payload (stub_lib [] [] (Inl (Timeout []))) stub_valves (request_body sample_messages) (JStr ''claude-opus-4-5'') sample_normalized JNull)
        = map (normalized (stub_lib [] [] (Inl (Timeout [])))) sample_messages"
    using payload_blocks [OF h1 h2 h3] by (rule conjunct1)
  with ms have nm: "map (normalized (stub_lib [] [] (Inl (Timeout [])))) sample_messages = sample_normalized"
    by simp
  from h1 h2 h3 ms nm h4 acc show ?thesis
    by (intro conjI)
qed

text \<open>
  The claim as stated, with the text block of the protocol carrying a string, fails for
  a message whose content is \<open>null\<close>: the content is not a list, so it is wrapped as it
  is, and the payload posted holds the block \<open>{"type": "text", "text": null}\<close>.
\<close>

theorem payload_blocks_counterexample:
  "map messages (snd (pipe (stub_lib [] [] (Inl (Timeout []))) stub_valves (request_body [null_message])))
     = [[JObj [(''role'', JStr ''assistant''),
               (''content'', JArr [JObj [(''type'', JStr ''text''), (''text'', JNull)]])]]]
   \<and> \<not> accepted_block (JObj [(''type'', JStr ''text''), (''text'', JNull)])"
proof -
  have "process_message L null_message st
        = Next (fst st @ [JObj [(''role'', JStr ''assistant''),
                                (''content'', JArr [JObj [(''type'', JStr ''text''), (''text'', JNull)]])]],
                snd st)" for L st
    by (simp add: process_message_def null_message_def text_block_def)
  moreover have "resolve_model (request_body [null_message]) = Inr (JStr ''claude-opus-4-5'')"
    using extract_model_id_after_separator [of "''anthropic''" "''claude-opus-4-5''"]
    by (simp add: resolve_model_def request_body_def)
  moreover have "pop_system_message (stub_lib [] [] (Inl (Timeout []))) (JArr [null_message])
                 = Inr (JNull, [null_message])"
    by (simp add: stub_lib_def stub_pop_def is_system_def null_message_def)
  moreover have "map_of (request_body [null_message]) ''messages'' = Some (JArr [null_message])"
    by (simp add: request_body_def)
  ultimately have "map messages (snd (pipe (stub_lib [] [] (Inl (Timeout []))) stub_valves
                                        (request_body [null_message])))
                   = [[JObj [(''role'', JStr ''assistant''),
                             (''content'', JArr [JObj [(''type'', JStr ''text''), (''text'', JNull)]])]]]"
    by (simp add: pipe_def stub_valves_def Let_def build_payload_def)
  moreover have "\<not> accepted_block (JObj [(''type'', JStr ''text''), (''text'', JNull)])"
    by (simp add: accepted_block_def is_text_block_def is_image_block_def field_def is_string_def)
  ultimately show ?thesis by simp
qed

end
